theory Spec2Isabelle
  imports Main "HOL-Library.Word" "HOL-Library.Monad_Syntax" "HOL-Library.AList"
begin

unbundle bit_operations_syntax

section \<open>Data layouts of PALETTE.CPP\<close>

text \<open>
  The two four-byte colour structures of the platform headers, with their fields in
  memory order, and the palette descriptor. \<open>BYTE\<close> is 8 bits, \<open>WORD\<close> 16 bits; a
  handle is a number and the null handle is 0.
\<close>

type_synonym BYTE = "8 word"
type_synonym WORD = "16 word"
type_synonym HANDLE = nat

record RGBQUAD =
  rgbBlue :: BYTE
  rgbGreen :: BYTE
  rgbRed :: BYTE
  rgbReserved :: BYTE

record PALETTEENTRY =
  peRed :: BYTE
  peGreen :: BYTE
  peBlue :: BYTE
  peFlags :: BYTE

record LOGPALETTE =
  palVersion :: WORD
  palNumEntries :: WORD
  palPalEntry :: "PALETTEENTRY list"

definition NULL :: HANDLE where
  "NULL = 0"

text \<open>
  Modelled from the spec: \<open>palette.h\<close> is not among the sources. It declares
  \<open>MAXPALETTE\<close> (the spec: descriptors of exactly 256 entries; the source also indexes
  \<open>aEntries[255]\<close> of an array of \<open>MAXPALETTE\<close> entries) and \<open>PALVERSION\<close> (the spec:
  the fixed palette-format constant; the source writes \<open>0x300\<close> where it spells it out).
\<close>

definition MAXPALETTE :: nat where
  "MAXPALETTE = 256"

definition PALVERSION :: WORD where
  "PALVERSION = 0x300"

text \<open>Constants of the platform headers that the source names.\<close>

definition PC_NOCOLLAPSE :: BYTE where
  "PC_NOCOLLAPSE = 0x04"

definition RASTERCAPS :: int where
  "RASTERCAPS = 38"

definition NUMCOLORS :: int where
  "NUMCOLORS = 24"

definition SIZEPALETTE :: int where
  "SIZEPALETTE = 104"

definition RC_PALETTE :: int where
  "RC_PALETTE = 0x0100"

definition SYSPAL_ERROR :: nat where
  "SYSPAL_ERROR = 0"

definition SYSPAL_STATIC :: nat where
  "SYSPAL_STATIC = 1"

definition SYSPAL_NOSTATIC :: nat where
  "SYSPAL_NOSTATIC = 2"

definition zero_entry :: PALETTEENTRY where
  "zero_entry = \<lparr>peRed = 0, peGreen = 0, peBlue = 0, peFlags = 0\<rparr>"

text \<open>
  \<open>CreateRGBQUADFromPalette\<close> hands its \<open>RGBQUAD\<close> buffer to the palette read through a
  cast to \<open>LPPALETTEENTRY\<close>: the same four bytes are then named by the other
  structure's fields, byte for byte.
\<close>

definition as_PALETTEENTRY :: "RGBQUAD \<Rightarrow> PALETTEENTRY" where
  "as_PALETTEENTRY q =
     \<lparr>peRed = rgbBlue q, peGreen = rgbGreen q, peBlue = rgbRed q, peFlags = rgbReserved q\<rparr>"

definition as_RGBQUAD :: "PALETTEENTRY \<Rightarrow> RGBQUAD" where
  "as_RGBQUAD e =
     \<lparr>rgbBlue = peRed e, rgbGreen = peGreen e, rgbRed = peBlue e, rgbReserved = peFlags e\<rparr>"

section \<open>Memory accesses and loops\<close>

text \<open>
  A computation of the C program is a value of type \<open>'a option\<close>: \<open>None\<close> is undefined
  behaviour (an access outside an array, or the read of a variable that was never
  written); \<open>Some\<close> carries the result. A null return of the source is not \<open>None\<close>: it
  is the handle \<open>NULL\<close>.
\<close>

definition rd :: "'a list \<Rightarrow> nat \<Rightarrow> 'a option" where
  "rd xs i = (if i < length xs then Some (xs ! i) else None)"

definition upd :: "'a list \<Rightarrow> nat \<Rightarrow> ('a \<Rightarrow> 'a) \<Rightarrow> 'a list option" where
  "upd xs i f = (if i < length xs then Some (xs[i := f (xs ! i)]) else None)"

text \<open>
  \<open>for (; i < n; i++) body\<close>: the counter is a C \<open>int\<close> that starts at 0 or where the
  previous loop left it and only counts up, so it is a natural number here; the bound is
  a signed value. The loop returns the counter with the state, since the source's next
  loop may go on from it.
\<close>

function for_loop :: "nat \<Rightarrow> int \<Rightarrow> (nat \<Rightarrow> 's \<Rightarrow> 's option) \<Rightarrow> 's \<Rightarrow> (nat \<times> 's) option" where
  "for_loop i n body s =
     (if int i < n
      then (case body i s of None \<Rightarrow> None | Some s' \<Rightarrow> for_loop (Suc i) n body s')
      else Some (i, s))"
  by pat_completeness auto
termination
  by (relation "measure (\<lambda>(i, n, body, s). nat (n - int i))") auto

declare for_loop.simps [simp del]

text \<open>
  Signed 32-bit arithmetic of C: division truncates towards zero, and a difference that
  does not fit an \<open>int\<close> is undefined behaviour.
\<close>

definition c_div :: "int \<Rightarrow> int \<Rightarrow> int" where
  "c_div a b = sgn a * sgn b * (\<bar>a\<bar> div \<bar>b\<bar>)"

definition c_sub :: "int \<Rightarrow> int \<Rightarrow> int option" where
  "c_sub a b = (if - (2 ^ 31) \<le> a - b \<and> a - b < 2 ^ 31 then Some (a - b) else None)"

section \<open>The host graphics interface\<close>

text \<open>
  The display device, the palette objects and the allocator are the host's (section 6 of
  the specification), not this file's. The state below holds what the source's calls
  read and change, after the platform's documentation of each call:
  \<^item> \<open>screen_dc\<close>: the handle \<open>GetDC(NULL)\<close> returns, \<open>NULL\<close> when no context is
    obtainable; \<open>dc_held\<close>: the contexts acquired and not yet released;
  \<^item> \<open>devcaps\<close>: the capabilities of the device behind a context, by index;
  \<^item> \<open>palette_use\<close>: the system palette use; \<open>system_palette\<close>: the entries of the
    system palette; \<open>realize\<close>: how the host maps a realized palette onto them;
  \<^item> \<open>selected\<close>: the palette selected into the screen context; \<open>objects\<close>: the
    live palettes by handle;
  \<^item> \<open>heap_ok\<close>, \<open>gdi_ok\<close>: whether an allocation, a palette creation succeeds.

  The failures admitted are the ones the source itself tests for somewhere: no context,
  a failed allocation, a failed creation, and a handle that names no palette. A call on
  a null or foreign handle fails as documented (it returns 0 or null and changes
  nothing).
\<close>

datatype 'a ptr = NullPtr | Ptr 'a

record gdi =
  screen_dc :: HANDLE
  dc_held :: nat
  devcaps :: "HANDLE \<Rightarrow> int \<Rightarrow> int"
  palette_use :: nat
  system_palette :: "PALETTEENTRY list"
  realize :: "PALETTEENTRY list \<Rightarrow> PALETTEENTRY list \<Rightarrow> PALETTEENTRY list"
  selected :: HANDLE
  objects :: "(HANDLE \<times> PALETTEENTRY list) list"
  heap_ok :: bool
  gdi_ok :: bool

definition palette_of :: "gdi \<Rightarrow> HANDLE \<Rightarrow> PALETTEENTRY list option" where
  "palette_of w h = (if h = NULL then None else map_of (objects w) h)"

definition fresh_handle :: "gdi \<Rightarrow> HANDLE" where
  "fresh_handle w = Suc (Max (set (NULL # map fst (objects w))))"

text \<open>\<open>GetDC(NULL)\<close> and \<open>ReleaseDC(NULL, hDC)\<close>; \<open>dc_held\<close> counts the contexts acquired
  and not yet released.\<close>

definition GetDC :: "gdi \<Rightarrow> HANDLE \<times> gdi" where
  "GetDC w =
     (if screen_dc w = NULL then (NULL, w)
      else (screen_dc w, w\<lparr>dc_held := Suc (dc_held w)\<rparr>))"

definition ReleaseDC :: "gdi \<Rightarrow> HANDLE \<Rightarrow> gdi" where
  "ReleaseDC w hDC =
     (if hDC \<noteq> NULL \<and> hDC = screen_dc w \<and> 0 < dc_held w
      then w\<lparr>dc_held := dc_held w - 1\<rparr> else w)"

definition GetDeviceCaps :: "gdi \<Rightarrow> HANDLE \<Rightarrow> int \<Rightarrow> int" where
  "GetDeviceCaps w hDC idx = (if hDC = NULL then 0 else devcaps w hDC idx)"

definition GetSystemPaletteUse :: "gdi \<Rightarrow> HANDLE \<Rightarrow> nat" where
  "GetSystemPaletteUse w hDC = (if hDC = NULL then SYSPAL_ERROR else palette_use w)"

text \<open>\<open>GlobalAlloc(GPTR, ...)\<close> for a descriptor of \<open>n\<close> entries: zeroed memory, or null.
  The block of the source is one entry longer (the descriptor type holds one entry
  itself); no access of the source reaches that entry.\<close>

definition GlobalAlloc :: "gdi \<Rightarrow> nat \<Rightarrow> PALETTEENTRY list ptr" where
  "GlobalAlloc w n = (if heap_ok w then Ptr (replicate n zero_entry) else NullPtr)"

text \<open>A block copy of \<open>n\<close> entries into the front of \<open>dst\<close>; it must fit both arrays.\<close>

definition CopyMemory :: "'a list \<Rightarrow> 'a list \<Rightarrow> nat \<Rightarrow> 'a list option" where
  "CopyMemory dst src n =
     (if n \<le> length dst \<and> n \<le> length src then Some (take n src @ drop n dst) else None)"

text \<open>\<open>GetSystemPaletteEntries(hDC, start, n, buf)\<close>: the entries copied and the buffer.\<close>

definition GetSystemPaletteEntries ::
  "gdi \<Rightarrow> HANDLE \<Rightarrow> nat \<Rightarrow> nat \<Rightarrow> PALETTEENTRY list \<Rightarrow> (nat \<times> PALETTEENTRY list) option" where
  "GetSystemPaletteEntries w hDC start n buf =
     (if hDC = NULL then Some (0, buf)
      else (let src = take n (drop start (system_palette w)) in
            do { buf' \<leftarrow> CopyMemory buf src (length src); Some (length src, buf') }))"

text \<open>\<open>CreatePalette\<close>: the host copies \<open>palNumEntries\<close> entries of the descriptor into a
  new object with a handle no live palette has, or returns null.\<close>

definition CreatePalette :: "gdi \<Rightarrow> LOGPALETTE \<Rightarrow> (HANDLE \<times> gdi) option" where
  "CreatePalette w lp =
     (if length (palPalEntry lp) < unat (palNumEntries lp) then None
      else if gdi_ok w
      then (let h = fresh_handle w in
            Some (h, w\<lparr>objects := (h, take (unat (palNumEntries lp)) (palPalEntry lp)) # objects w\<rparr>))
      else Some (NULL, w))"

text \<open>\<open>GetObject(hPal, sizeof(WORD), &v)\<close>: the return value and the variable \<open>v\<close>, which
  keeps its old state (\<open>None\<close> when it was never written) where the call fails.\<close>

definition GetObject :: "gdi \<Rightarrow> HANDLE \<Rightarrow> WORD option \<Rightarrow> int \<times> WORD option" where
  "GetObject w hPal v =
     (case palette_of w hPal of
        None \<Rightarrow> (0, v)
      | Some es \<Rightarrow> (2, Some (of_nat (length es))))"

text \<open>\<open>GetPaletteEntries\<close> and \<open>SetPaletteEntries\<close> copy at most \<open>n\<close> entries from
  \<open>start\<close>, as many as the palette has there, out of or into the palette, and return
  their number.\<close>

definition GetPaletteEntries ::
  "gdi \<Rightarrow> HANDLE \<Rightarrow> nat \<Rightarrow> nat \<Rightarrow> PALETTEENTRY list \<Rightarrow> (nat \<times> PALETTEENTRY list) option" where
  "GetPaletteEntries w hPal start n buf =
     (case palette_of w hPal of
        None \<Rightarrow> Some (0, buf)
      | Some es \<Rightarrow>
          (let src = take n (drop start es) in
           do { buf' \<leftarrow> CopyMemory buf src (length src); Some (length src, buf') }))"

definition SetPaletteEntries ::
  "gdi \<Rightarrow> HANDLE \<Rightarrow> nat \<Rightarrow> nat \<Rightarrow> PALETTEENTRY list \<Rightarrow> (nat \<times> gdi) option" where
  "SetPaletteEntries w hPal start n src =
     (case palette_of w hPal of
        None \<Rightarrow> Some (0, w)
      | Some es \<Rightarrow>
          (let k = min n (length es - start) in
           if length src < k then None
           else Some (k, w\<lparr>objects :=
                  AList.update hPal (take start es @ take k src @ drop (start + k) es) (objects w)\<rparr>)))"

text \<open>\<open>SelectPalette\<close> returns the palette selected before, or null when it fails;
  \<open>RealizePalette\<close> maps the selected palette onto the system palette;
  \<open>DeleteObject\<close> ends the life of a palette.\<close>

definition SelectPalette :: "gdi \<Rightarrow> HANDLE \<Rightarrow> HANDLE \<Rightarrow> bool \<Rightarrow> HANDLE \<times> gdi" where
  "SelectPalette w hDC hPal bForceBackground =
     (if hDC = NULL \<or> hDC \<noteq> screen_dc w \<or> palette_of w hPal = None then (NULL, w)
      else (selected w, w\<lparr>selected := hPal\<rparr>))"

definition RealizePalette :: "gdi \<Rightarrow> HANDLE \<Rightarrow> gdi" where
  "RealizePalette w hDC =
     (if hDC = NULL \<or> hDC \<noteq> screen_dc w then w
      else (case palette_of w (selected w) of
              None \<Rightarrow> w
            | Some es \<Rightarrow> w\<lparr>system_palette := realize w es (system_palette w)\<rparr>))"

definition DeleteObject :: "gdi \<Rightarrow> HANDLE \<Rightarrow> gdi" where
  "DeleteObject w h =
     (if palette_of w h = None then w else w\<lparr>objects := AList.delete h (objects w)\<rparr>)"

section \<open>The routines of PALETTE.CPP\<close>

subsection \<open>PalEntriesOnDevice\<close>

definition PalEntriesOnDevice :: "gdi \<Rightarrow> HANDLE \<Rightarrow> int" where
  "PalEntriesOnDevice w hDC =
     (let nColors = GetDeviceCaps w hDC SIZEPALETTE;
          nColors = (if nColors = 0 then GetDeviceCaps w hDC NUMCOLORS else nColors)
      in nColors)"

subsection \<open>CreatePaletteFromRGBQUAD\<close>

text \<open>The local array \<open>pe[256]\<close> is written by \<open>CopyMemory\<close> and never read: only the
  bound of that copy matters, so its first contents are taken as zero.\<close>

definition CreatePaletteFromRGBQUAD :: "gdi \<Rightarrow> RGBQUAD list \<Rightarrow> WORD \<Rightarrow> (HANDLE \<times> gdi) option" where
  "CreatePaletteFromRGBQUAD w rgbqPalette wEntries =
     (case GlobalAlloc w (unat wEntries) of
        NullPtr \<Rightarrow> Some (NULL, w)
      | Ptr mem \<Rightarrow>
          do {
            let lplgPal = \<lparr>palVersion = PALVERSION, palNumEntries = wEntries, palPalEntry = mem\<rparr>;
            (i, es) \<leftarrow> for_loop 0 (uint wEntries)
              (\<lambda>i es. do {
                 q \<leftarrow> rd rgbqPalette i;
                 upd es i (\<lambda>e. e\<lparr>peRed := rgbRed q, peGreen := rgbGreen q,
                                 peBlue := rgbBlue q, peFlags := 0\<rparr>)
               })
              (palPalEntry lplgPal);
            pe \<leftarrow> CopyMemory (replicate 256 zero_entry) es (unat wEntries);
            CreatePalette w (lplgPal\<lparr>palPalEntry := es\<rparr>)
          })"

subsection \<open>CreateRGBQUADFromPalette\<close>

text \<open>The body of the loop, statement by statement.\<close>

definition swap_in_place :: "RGBQUAD \<Rightarrow> RGBQUAD" where
  "swap_in_place q =
     (let q = q\<lparr>rgbReserved := rgbRed q\<rparr>;
          q = q\<lparr>rgbRed := rgbBlue q\<rparr>;
          q = q\<lparr>rgbBlue := rgbReserved q\<rparr>;
          q = q\<lparr>rgbReserved := 0\<rparr>
      in q)"

text \<open>The transformation in the specification's words: swap red and blue, reserved
  becomes 0.\<close>

definition swap_red_blue_zero :: "RGBQUAD \<Rightarrow> RGBQUAD" where
  "swap_red_blue_zero q = q\<lparr>rgbRed := rgbBlue q, rgbBlue := rgbRed q, rgbReserved := 0\<rparr>"

text \<open>The function returns the count and the caller's buffer as it leaves it.\<close>

definition CreateRGBQUADFromPalette ::
  "gdi \<Rightarrow> RGBQUAD list \<Rightarrow> HANDLE \<Rightarrow> (WORD \<times> RGBQUAD list) option" where
  "CreateRGBQUADFromPalette w rgbqPalette hPal =
     do {
       let (r, v) = GetObject w hPal None;
       wEntries \<leftarrow> v;
       (k, mem) \<leftarrow> GetPaletteEntries w hPal 0 (unat wEntries) (map as_PALETTEENTRY rgbqPalette);
       (i, rgbqPalette) \<leftarrow> for_loop 0 (uint wEntries)
          (\<lambda>i buf. upd buf i swap_in_place) (map as_RGBQUAD mem);
       Some (wEntries, rgbqPalette)
     }"

subsection \<open>GetSystemPalette\<close>

text \<open>
  The function-local \<open>static\<close> handle is written and never read: it is left out. A
  negative count makes the size computation of the allocation wrap; past a successful
  allocation that case is not modelled (\<open>None\<close>).
\<close>

definition GetSystemPalette :: "gdi \<Rightarrow> (HANDLE \<times> gdi) option" where
  "GetSystemPalette w =
     (let (hDC, w) = GetDC w in
      if hDC = NULL then Some (NULL, w)
      else if GetDeviceCaps w hDC RASTERCAPS AND RC_PALETTE = 0
      then Some (NULL, ReleaseDC w hDC)
      else
        (let nColors = PalEntriesOnDevice w hDC in
         case GlobalAlloc w (nat nColors) of
           NullPtr \<Rightarrow> Some (NULL, w)
         | Ptr mem \<Rightarrow>
             if nColors < 0 then None
             else do {
               let lpLogPal = \<lparr>palVersion = PALVERSION, palNumEntries = word_of_int nColors,
                                palPalEntry = mem\<rparr>;
               (k, es) \<leftarrow> GetSystemPaletteEntries w hDC 0 (nat nColors) (palPalEntry lpLogPal);
               (hPal, w) \<leftarrow> CreatePalette w (lpLogPal\<lparr>palPalEntry := es\<rparr>);
               Some (hPal, ReleaseDC w hDC)
             }))"

subsection \<open>CreateSpectrumPalette\<close>

text \<open>\<open>if (!(red += 32)) if (!(green += 32)) blue += 64;\<close> on three bytes.\<close>

definition spectrum_next :: "BYTE \<times> BYTE \<times> BYTE \<Rightarrow> BYTE \<times> BYTE \<times> BYTE" where
  "spectrum_next c =
     (case c of (red, green, blue) \<Rightarrow>
        (let red = red + 32 in
         if red = 0
         then (let green = green + 32 in
               if green = 0 then (red, green, blue + 64) else (red, green, blue))
         else (red, green, blue)))"

text \<open>The descriptor the function fills in the allocated memory, before it is handed
  to \<open>CreatePalette\<close>.\<close>

definition CreateSpectrumPalette_descriptor :: "PALETTEENTRY list \<Rightarrow> LOGPALETTE option" where
  "CreateSpectrumPalette_descriptor mem =
     do {
       let lplgPal = \<lparr>palVersion = PALVERSION, palNumEntries = of_nat MAXPALETTE,
                       palPalEntry = mem\<rparr>;
       (i, c, es) \<leftarrow> for_loop 0 (int MAXPALETTE)
          (\<lambda>i (c, es). do {
             es \<leftarrow> upd es i (\<lambda>e. e\<lparr>peRed := fst c, peGreen := fst (snd c),
                                     peBlue := snd (snd c), peFlags := 0\<rparr>);
             Some (spectrum_next c, es)
           })
          ((0, 0, 0), palPalEntry lplgPal);
       Some (lplgPal\<lparr>palPalEntry := es\<rparr>)
     }"

definition CreateSpectrumPalette :: "gdi \<Rightarrow> (HANDLE \<times> gdi) option" where
  "CreateSpectrumPalette w =
     (case GlobalAlloc w MAXPALETTE of
        NullPtr \<Rightarrow> Some (NULL, w)
      | Ptr mem \<Rightarrow> do { lplgPal \<leftarrow> CreateSpectrumPalette_descriptor mem; CreatePalette w lplgPal })"

subsection \<open>CopyPalette and CopyPaletteEx\<close>

definition CopyPalette :: "gdi \<Rightarrow> HANDLE \<Rightarrow> (HANDLE \<times> gdi) option" where
  "CopyPalette w hPal =
     do {
       let (r, v) = GetObject w hPal None;
       iNumEntries \<leftarrow> v;
       (case GlobalAlloc w (unat iNumEntries) of
          NullPtr \<Rightarrow> Some (NULL, w)
        | Ptr mem \<Rightarrow>
            do {
              (k, es) \<leftarrow> GetPaletteEntries w hPal 0 (unat iNumEntries) mem;
              let lplgPal = \<lparr>palVersion = PALVERSION, palNumEntries = of_nat k,
                              palPalEntry = es\<rparr>;
              CreatePalette w lplgPal
            })
     }"

text \<open>
  The local array \<open>pe[MAXPALETTE]\<close> has no initialiser: \<open>garbage\<close> gives the bytes the
  stack holds there, and every property is for every \<open>garbage\<close>.
\<close>

definition CopyPaletteEx ::
  "gdi \<Rightarrow> HANDLE \<Rightarrow> BYTE \<Rightarrow> (nat \<Rightarrow> PALETTEENTRY) \<Rightarrow> (HANDLE \<times> gdi) option" where
  "CopyPaletteEx w hPal bFlag garbage =
     (if hPal = NULL then Some (NULL, w)
      else
        (let (r, v) = GetObject w hPal None in
         if r = 0 then Some (NULL, w)
         else do {
           wNumColors \<leftarrow> v;
           (hNewPal, w) \<leftarrow> CopyPalette w hPal;
           (k, pe) \<leftarrow> GetPaletteEntries w hNewPal 0 (unat wNumColors)
                        (map garbage [0..<MAXPALETTE]);
           (i, pe) \<leftarrow> for_loop 0 (uint wNumColors)
                        (\<lambda>i pe. upd pe i (\<lambda>e. e\<lparr>peFlags := bFlag\<rparr>)) pe;
           (k, w) \<leftarrow> SetPaletteEntries w hNewPal 0 (unat wNumColors) pe;
           Some (hNewPal, w)
         }))"

subsection \<open>CreateIdentityPalette\<close>

text \<open>
  The local \<open>Palette\<close> has the initialiser \<open>{0x300, MAXPALETTE}\<close>: the entries it does
  not name start as zero. \<open>IdentityPalette_entries\<close> is the branch on the palette use,
  from the zeroed array to the array handed to \<open>CreatePalette\<close>.
\<close>

definition IdentityPalette_entries ::
  "gdi \<Rightarrow> HANDLE \<Rightarrow> RGBQUAD list \<Rightarrow> int \<Rightarrow> PALETTEENTRY list option" where
  "IdentityPalette_entries w hDC lprgbq nColors =
     (let aEntries = replicate MAXPALETTE zero_entry in
      if GetSystemPaletteUse w hDC = SYSPAL_NOSTATIC
      then do {
        (i, aEntries) \<leftarrow> for_loop 0 nColors
           (\<lambda>i a. do {
              q \<leftarrow> rd lprgbq i;
              upd a i (\<lambda>e. e\<lparr>peRed := rgbRed q, peGreen := rgbGreen q,
                             peBlue := rgbBlue q, peFlags := PC_NOCOLLAPSE\<rparr>)
            })
           aEntries;
        (i, aEntries) \<leftarrow> for_loop i (int MAXPALETTE)
           (\<lambda>i a. upd a i (\<lambda>e. e\<lparr>peFlags := PC_NOCOLLAPSE\<rparr>)) aEntries;
        aEntries \<leftarrow> upd aEntries 255
           (\<lambda>e. e\<lparr>peRed := 255, peGreen := 255, peBlue := 255, peFlags := 0\<rparr>);
        aEntries \<leftarrow> upd aEntries 0
           (\<lambda>e. e\<lparr>peRed := 0, peGreen := 0, peBlue := 0, peFlags := 0\<rparr>);
        Some aEntries
      }
      else do {
        let nStaticColors = GetDeviceCaps w hDC NUMCOLORS;
        (k, aEntries) \<leftarrow> GetSystemPaletteEntries w hDC 0 MAXPALETTE aEntries;
        let nStaticColors = c_div nStaticColors 2;
        (i, aEntries) \<leftarrow> for_loop 0 nStaticColors
           (\<lambda>i a. upd a i (\<lambda>e. e\<lparr>peFlags := 0\<rparr>)) aEntries;
        nUsableColors \<leftarrow> c_sub nColors nStaticColors;
        (i, aEntries) \<leftarrow> for_loop i nUsableColors
           (\<lambda>i a. do {
              q \<leftarrow> rd lprgbq i;
              upd a i (\<lambda>e. e\<lparr>peRed := rgbRed q, peGreen := rgbGreen q,
                             peBlue := rgbBlue q, peFlags := PC_NOCOLLAPSE\<rparr>)
            })
           aEntries;
        upper \<leftarrow> c_sub (int MAXPALETTE) nStaticColors;
        (i, aEntries) \<leftarrow> for_loop i upper
           (\<lambda>i a. upd a i (\<lambda>e. e\<lparr>peFlags := PC_NOCOLLAPSE\<rparr>)) aEntries;
        (i, aEntries) \<leftarrow>
           (if upper < 0 \<and> upper < int MAXPALETTE then None
            else for_loop (nat upper) (int MAXPALETTE)
                   (\<lambda>i a. upd a i (\<lambda>e. e\<lparr>peFlags := 0\<rparr>)) aEntries);
        Some aEntries
      })"

text \<open>The descriptor and the state after \<open>ReleaseDC\<close>, then the whole function.\<close>

definition CreateIdentityPalette_descriptor ::
  "gdi \<Rightarrow> RGBQUAD list \<Rightarrow> int \<Rightarrow> (LOGPALETTE \<times> gdi) option" where
  "CreateIdentityPalette_descriptor w lprgbq nColors =
     (let (hDC, w) = GetDC w in
      do {
        aEntries \<leftarrow> IdentityPalette_entries w hDC lprgbq nColors;
        Some (\<lparr>palVersion = 0x300, palNumEntries = of_nat MAXPALETTE, palPalEntry = aEntries\<rparr>,
              ReleaseDC w hDC)
      })"

definition CreateIdentityPalette :: "gdi \<Rightarrow> RGBQUAD list \<Rightarrow> int \<Rightarrow> (HANDLE \<times> gdi) option" where
  "CreateIdentityPalette w lprgbq nColors =
     do {
       (Palette, w) \<leftarrow> CreateIdentityPalette_descriptor w lprgbq nColors;
       CreatePalette w Palette
     }"

subsection \<open>ClearSystemPalette\<close>

definition ClearSystemPalette :: "gdi \<Rightarrow> gdi option" where
  "ClearSystemPalette w =
     do {
       (Counter, aEntries) \<leftarrow> for_loop 0 (int MAXPALETTE)
          (\<lambda>i a. upd a i (\<lambda>e. e\<lparr>peRed := 0, peGreen := 0, peBlue := 0,
                                 peFlags := PC_NOCOLLAPSE\<rparr>))
          (replicate MAXPALETTE zero_entry);
       let Palette = \<lparr>palVersion = 0x300, palNumEntries = of_nat MAXPALETTE,
                      palPalEntry = aEntries\<rparr>;
       let (ScreenDC, w) = GetDC w;
       (ScreenPalette, w) \<leftarrow> CreatePalette w Palette;
       let w = (if ScreenPalette \<noteq> NULL
                then (let (ScreenPalette, w) = SelectPalette w ScreenDC ScreenPalette False;
                          w = RealizePalette w ScreenDC;
                          (ScreenPalette, w) = SelectPalette w ScreenDC ScreenPalette False
                      in DeleteObject w ScreenPalette)
                else w);
       Some (ReleaseDC w ScreenDC)
     }"

subsection \<open>Auxiliary notions of the properties\<close>

text \<open>A colour-table entry as a palette entry with the flag \<open>fl\<close>, and the colour of a
  palette entry without its flag.\<close>

definition to_entry :: "BYTE \<Rightarrow> RGBQUAD \<Rightarrow> PALETTEENTRY" where
  "to_entry fl q = \<lparr>peRed = rgbRed q, peGreen = rgbGreen q, peBlue = rgbBlue q, peFlags = fl\<rparr>"

definition colour :: "PALETTEENTRY \<Rightarrow> BYTE \<times> BYTE \<times> BYTE" where
  "colour e = (peRed e, peGreen e, peBlue e)"

text \<open>Entry \<open>k\<close> of the descriptor a routine constructs, when it constructs one.\<close>

definition entry_of :: "(LOGPALETTE \<times> gdi) option \<Rightarrow> nat \<Rightarrow> PALETTEENTRY option" where
  "entry_of r k = map_option (\<lambda>(lp, w). palPalEntry lp ! k) r"

text \<open>A 256-colour palette display, for concrete instances: 20 static colours, a grey
  system palette, the stock palette selected.\<close>

definition palette_display :: gdi where
  "palette_display =
     \<lparr>screen_dc = 1, dc_held = 0,
      devcaps = (\<lambda>h idx. if idx = SIZEPALETTE then 256 else if idx = NUMCOLORS then 20
                         else if idx = RASTERCAPS then 0x0100 else 0),
      palette_use = SYSPAL_STATIC,
      system_palette = replicate 256 \<lparr>peRed = 128, peGreen = 128, peBlue = 128, peFlags = 0\<rparr>,
      realize = (\<lambda>es sys. es),
      selected = 1,
      objects = [(1, replicate 20 zero_entry)],
      heap_ok = True, gdi_ok = True\<rparr>"

text \<open>The closed form of the spectrum: entry \<open>k\<close> holds red level \<open>k mod 8\<close>, green
  level \<open>k div 8 mod 8\<close> (steps of 32) and blue level \<open>k div 64\<close> (steps of 64), as
  bytes.\<close>

definition level :: "nat \<Rightarrow> nat \<Rightarrow> BYTE" where
  "level step m = of_nat (step * m)"

definition spectrum_colour :: "nat \<Rightarrow> BYTE \<times> BYTE \<times> BYTE" where
  "spectrum_colour k = (level 32 (k mod 8), level 32 (k div 8 mod 8), level 64 (k div 64))"

definition spectrum_entry :: "nat \<Rightarrow> PALETTEENTRY" where
  "spectrum_entry k =
     (case spectrum_colour k of (red, green, blue) \<Rightarrow>
        \<lparr>peRed = red, peGreen = green, peBlue = blue, peFlags = 0\<rparr>)"

text \<open>The nested wrapping counter in the specification's words, on numbers: red steps by
  32 and wraps at 256; green steps by 32, wrapping alike, each time red wraps; blue steps
  by 64 each time green wraps. \<open>levels\<close> reads the three colour bytes of an entry as
  numbers.\<close>

definition wrapping_counter_step :: "nat \<times> nat \<times> nat \<Rightarrow> nat \<times> nat \<times> nat" where
  "wrapping_counter_step c =
     (case c of (red, green, blue) \<Rightarrow>
        (let red' = (red + 32) mod 256;
             green' = (if red' = 0 then (green + 32) mod 256 else green);
             blue' = (if red' = 0 \<and> green' = 0 then (blue + 64) mod 256 else blue)
         in (red', green', blue')))"

definition levels :: "PALETTEENTRY \<Rightarrow> nat \<times> nat \<times> nat" where
  "levels e = (unat (peRed e), unat (peGreen e), unat (peBlue e))"

text \<open>Entry \<open>k\<close> of the shared-use branch in closed form: the four loops in the
  source's order, applied to entry \<open>k\<close> of the system-palette snapshot \<open>S\<close>; \<open>s\<close> is
  \<open>nStaticColors\<close> after the halving and \<open>u\<close> is \<open>nUsableColors\<close>.\<close>

definition static_entry ::
  "PALETTEENTRY list \<Rightarrow> RGBQUAD list \<Rightarrow> int \<Rightarrow> int \<Rightarrow> nat \<Rightarrow> PALETTEENTRY" where
  "static_entry S lprgbq s u k =
     (let e = S ! k;
          e = (if int k < s then e\<lparr>peFlags := 0\<rparr> else e);
          e = (if s \<le> int k \<and> int k < u then to_entry PC_NOCOLLAPSE (lprgbq ! k) else e);
          e = (if s \<le> int k \<and> u \<le> int k \<and> int k < 256 - s
               then e\<lparr>peFlags := PC_NOCOLLAPSE\<rparr> else e);
          e = (if 256 - s \<le> int k then e\<lparr>peFlags := 0\<rparr> else e)
      in e)"

text \<open>What \<open>GetSystemPaletteEntries(hDC, 0, MAXPALETTE, aEntries)\<close> leaves in the
  zeroed array for a valid context: the system palette's entries, and zero where the
  system palette has none.\<close>

definition system_snapshot :: "gdi \<Rightarrow> PALETTEENTRY list" where
  "system_snapshot w =
     (let src = take MAXPALETTE (system_palette w)
      in src @ drop (length src) (replicate MAXPALETTE zero_entry))"

text \<open>The entry \<open>ClearSystemPalette\<close> writes into every slot.\<close>

definition black_nocollapse :: PALETTEENTRY where
  "black_nocollapse = \<lparr>peRed = 0, peGreen = 0, peBlue = 0, peFlags = PC_NOCOLLAPSE\<rparr>"

section \<open>Properties\<close>

subsection \<open>Loops\<close>

lemma for_loop_step:
  "int i < n \<Longrightarrow> for_loop i n body s =
     (case body i s of None \<Rightarrow> None | Some s' \<Rightarrow> for_loop (Suc i) n body s')"
  by (subst for_loop.simps) simp

lemma for_loop_done: "\<not> int i < n \<Longrightarrow> for_loop i n body s = Some (i, s)"
  by (subst for_loop.simps) simp

text \<open>
  The invariant rule: a body that keeps \<open>I\<close> at every counter from \<open>i\<close> up to the bound,
  and never faults there, makes the loop return with the counter at the bound (or where
  it was, when it was already past it) and \<open>I\<close> there.
\<close>

lemma for_loop_invariant:
  assumes "I i s"
    and "\<And>j t. i \<le> j \<Longrightarrow> int j < n \<Longrightarrow> I j t \<Longrightarrow> \<exists>t'. body j t = Some t' \<and> I (Suc j) t'"
  shows "\<exists>s'. for_loop i n body s = Some (max i (nat n), s') \<and> I (max i (nat n)) s'"
  using assms
proof (induction i n body s rule: for_loop.induct)
  case (1 i n body s)
  show ?case
  proof (cases "int i < n")
    case False
    then have "max i (nat n) = i" by simp
    with False "1.prems"(1) show ?thesis by (simp add: for_loop_done)
  next
    case True
    from "1.prems"(2) [OF le_refl True "1.prems"(1)]
    obtain t where t: "body i s = Some t" "I (Suc i) t" by blast
    have step: "\<And>j u. Suc i \<le> j \<Longrightarrow> int j < n \<Longrightarrow> I j u \<Longrightarrow> \<exists>t'. body j u = Some t' \<and> I (Suc j) t'"
      using "1.prems"(2) by simp
    from "1.IH" [OF True t(1) t(2) step]
    obtain s' where s': "for_loop (Suc i) n body t = Some (max (Suc i) (nat n), s')"
      "I (max (Suc i) (nat n)) s'" by blast
    from True have "max (Suc i) (nat n) = max i (nat n)" by simp
    with s' t True show ?thesis by (simp add: for_loop_step)
  qed
qed

lemma rd_Some: "i < length xs \<Longrightarrow> rd xs i = Some (xs ! i)"
  by (simp add: rd_def)

lemma upd_Some: "i < length xs \<Longrightarrow> upd xs i f = Some (xs[i := f (xs ! i)])"
  by (simp add: upd_def)

lemma map_prefix_step:
  assumes "j < length xs"
  shows "(map f (take j xs) @ drop j xs)[j := f ((map f (take j xs) @ drop j xs) ! j)] =
         map f (take (Suc j) xs) @ drop (Suc j) xs"
proof -
  from assms have "(map f (take j xs) @ drop j xs) ! j = xs ! j"
    by (simp add: nth_append)
  moreover from assms have "(map f (take j xs) @ drop j xs)[j := y] =
      map f (take j xs) @ y # drop (Suc j) xs" for y
    by (simp add: list_update_append Cons_nth_drop_Suc [symmetric])
  ultimately show ?thesis using assms
    by (simp add: take_Suc_conv_app_nth)
qed

lemma for_loop_upd_prefix:
  assumes "n \<le> length xs"
  shows "for_loop 0 (int n) (\<lambda>i b. upd b i f) xs = Some (n, map f (take n xs) @ drop n xs)"
proof -
  let ?I = "\<lambda>j b. b = map f (take j xs) @ drop j xs"
  have "\<exists>s'. for_loop 0 (int n) (\<lambda>i b. upd b i f) xs = Some (max 0 (nat (int n)), s')
          \<and> ?I (max 0 (nat (int n))) s'"
  proof (rule for_loop_invariant [where I = ?I])
    show "?I 0 xs" by simp
  next
    fix j t
    assume "int j < int n" and t: "?I j t"
    with assms have j: "j < length xs" by simp
    then have "j < length t" using t by simp
    then have "upd t j f = Some (t[j := f (t ! j)])" by (rule upd_Some)
    with t map_prefix_step [OF j, of f]
    show "\<exists>t'. upd t j f = Some t' \<and> ?I (Suc j) t'" by simp
  qed
  then show ?thesis by simp
qed

lemma entry_all_fields:
  "(e :: PALETTEENTRY)\<lparr>peRed := a, peGreen := b, peBlue := c, peFlags := d\<rparr> =
     \<lparr>peRed = a, peGreen = b, peBlue = c, peFlags = d\<rparr>"
  by (cases e) simp


lemma fill_loop:
  assumes "n \<le> length t" "length es = n"
  shows "for_loop 0 (int n)
          (\<lambda>i es. do {
                 q \<leftarrow> rd t i;
                 upd es i (\<lambda>e. e\<lparr>peRed := rgbRed q, peGreen := rgbGreen q,
                                 peBlue := rgbBlue q, peFlags := 0\<rparr>)
               }) es = Some (n, map (to_entry 0) (take n t))"
proof -
  let ?body = "(\<lambda>i es. do {
                 q \<leftarrow> rd t i;
                 upd es i (\<lambda>e. e\<lparr>peRed := rgbRed q, peGreen := rgbGreen q,
                                 peBlue := rgbBlue q, peFlags := 0\<rparr>)
               })"
  let ?I = "\<lambda>j (b :: PALETTEENTRY list). length b = n \<and> (\<forall>k<j. b ! k = to_entry 0 (t ! k))"
  have "\<exists>s'. for_loop 0 (int n) ?body es = Some (max 0 (nat (int n)), s')
          \<and> ?I (max 0 (nat (int n))) s'"
  proof (rule for_loop_invariant [where I = ?I])
    show "?I 0 es" using assms by simp
  next
    fix j b
    assume jn: "int j < int n" and b: "?I j b"
    then have "j < length t" "j < length b" using assms by simp_all
    then have "?body j b = Some (b[j := to_entry 0 (t ! j)])"
      by (simp add: rd_Some upd_Some to_entry_def entry_all_fields)
    moreover have "?I (Suc j) (b[j := to_entry 0 (t ! j)])"
      using b jn by (auto simp: nth_list_update less_Suc_eq)
    ultimately show "\<exists>t'. ?body j b = Some t' \<and> ?I (Suc j) t'" by blast
  qed
  then obtain s' where s': "for_loop 0 (int n) ?body es = Some (n, s')"
     "length s' = n" "\<forall>k<n. s' ! k = to_entry 0 (t ! k)" by auto
  have "s' = map (to_entry 0) (take n t)"
    using s'(2,3) assms by (auto simp: list_eq_iff_nth_eq)
  with s'(1) show ?thesis by simp
qed

subsection \<open>The host's palette objects\<close>

lemma fresh_handle_not_NULL: "fresh_handle w \<noteq> NULL"
  by (simp add: fresh_handle_def NULL_def)

lemma fresh_handle_greater:
  assumes "palette_of w h = Some es"
  shows "h < fresh_handle w"
proof -
  from assms have "map_of (objects w) h = Some es"
    by (simp add: palette_of_def split: if_splits)
  then have "h \<in> set (NULL # map fst (objects w))"
    by (auto dest: map_of_SomeD intro: rev_image_eqI)
  then have "h \<le> Max (set (NULL # map fst (objects w)))"
    by (intro Max_ge) auto
  then show ?thesis by (simp add: fresh_handle_def)
qed

lemma CreatePalette_ok:
  assumes "gdi_ok w" "unat (palNumEntries lp) \<le> length (palPalEntry lp)"
  shows "CreatePalette w lp = Some (fresh_handle w,
           w\<lparr>objects := (fresh_handle w, take (unat (palNumEntries lp)) (palPalEntry lp)) # objects w\<rparr>)"
  using assms by (simp add: CreatePalette_def Let_def)

lemma palette_of_created:
  "palette_of (w\<lparr>objects := (fresh_handle w, es) # objects w\<rparr>) (fresh_handle w) = Some es"
  by (simp add: palette_of_def fresh_handle_not_NULL)

subsection \<open>Building a palette and reading it back\<close>

lemma CreatePaletteFromRGBQUAD_ok:
  assumes "heap_ok w" "gdi_ok w" "unat wEntries \<le> length t" "unat wEntries \<le> 256"
  shows "CreatePaletteFromRGBQUAD w t wEntries =
           Some (fresh_handle w,
                 w\<lparr>objects := (fresh_handle w, map (to_entry 0) (take (unat wEntries) t)) # objects w\<rparr>)"
proof -
  have loop: "for_loop 0 (uint wEntries)
          (\<lambda>i es. do {
                 q \<leftarrow> rd t i;
                 upd es i (\<lambda>e. e\<lparr>peRed := rgbRed q, peGreen := rgbGreen q,
                                 peBlue := rgbBlue q, peFlags := 0\<rparr>)
               }) (replicate (unat wEntries) zero_entry) =
        Some (unat wEntries, map (to_entry 0) (take (unat wEntries) t))"
    using fill_loop [of "unat wEntries" t "replicate (unat wEntries) zero_entry"] assms(3)
    by simp
  show ?thesis
    using assms
    by (simp add: CreatePaletteFromRGBQUAD_def GlobalAlloc_def loop CopyMemory_def
        CreatePalette_ok)
qed

lemma as_RGBQUAD_inverse: "as_RGBQUAD (as_PALETTEENTRY q) = q"
  by (simp add: as_RGBQUAD_def as_PALETTEENTRY_def)

lemma CreateRGBQUADFromPalette_ok:
  assumes "palette_of w h = Some es" "length es \<le> length buf" "length es < 65536"
  shows "CreateRGBQUADFromPalette w buf h =
           Some (of_nat (length es),
                 map (swap_in_place \<circ> as_RGBQUAD) es @ drop (length es) buf)"
proof -
  have n: "unat (of_nat (length es) :: WORD) = length es"
    using assms(3) by (simp add: unat_of_nat)
  then have u: "uint (of_nat (length es) :: WORD) = int (length es)"
    by (metis uint_nat)
  have loop: "for_loop 0 (int (length es)) (\<lambda>i b. upd b i swap_in_place)
          (map as_RGBQUAD es @ drop (length es) buf) =
        Some (length es, map swap_in_place (take (length es) (map as_RGBQUAD es @ drop (length es) buf))
               @ drop (length es) (map as_RGBQUAD es @ drop (length es) buf))"
    by (rule for_loop_upd_prefix) (use assms(2) in simp)
  show ?thesis
    using assms(1,2)
    by (simp add: CreateRGBQUADFromPalette_def GetObject_def GetPaletteEntries_def n u
        CopyMemory_def loop drop_map as_RGBQUAD_inverse comp_def)
qed

text \<open>
  C1. For every count from 1 to 256 and every colour table of that length, when the
  allocation and the palette creation succeed, \<open>CreatePaletteFromRGBQUAD\<close> returns a
  palette that \<open>CreateRGBQUADFromPalette\<close> reads back (into any buffer that holds the
  count) with the same count and, at every index, the same red, green and blue; the
  reserved byte of every entry read back is 0, whatever the table's reserved bytes were.
\<close>

theorem palette_roundtrip:
  assumes "1 \<le> unat wEntries" "unat wEntries \<le> 256" "length t = unat wEntries"
    and "heap_ok w" "gdi_ok w" "unat wEntries \<le> length buf"
  shows "\<exists>h w' out.
           CreatePaletteFromRGBQUAD w t wEntries = Some (h, w') \<and> h \<noteq> NULL \<and>
           CreateRGBQUADFromPalette w' buf h = Some (wEntries, out) \<and>
           length out = length buf \<and>
           (\<forall>i < unat wEntries.
              rgbRed (out ! i) = rgbRed (t ! i) \<and> rgbGreen (out ! i) = rgbGreen (t ! i) \<and>
              rgbBlue (out ! i) = rgbBlue (t ! i) \<and> rgbReserved (out ! i) = 0)"
proof -
  let ?es = "map (to_entry 0) (take (unat wEntries) t)"
  let ?h = "fresh_handle w"
  let ?w' = "w\<lparr>objects := (?h, ?es) # objects w\<rparr>"
  let ?out = "map (swap_in_place \<circ> as_RGBQUAD) ?es @ drop (length ?es) buf"
  have len: "length ?es = unat wEntries" using assms(3) by simp
  have create: "CreatePaletteFromRGBQUAD w t wEntries = Some (?h, ?w')"
    using assms by (intro CreatePaletteFromRGBQUAD_ok) simp_all
  have "CreateRGBQUADFromPalette ?w' buf ?h = Some (of_nat (length ?es), ?out)"
    using assms(2,6) len by (intro CreateRGBQUADFromPalette_ok palette_of_created) simp_all
  then have read: "CreateRGBQUADFromPalette ?w' buf ?h = Some (wEntries, ?out)"
    by (simp only: len) simp
  have "length ?out = length buf" using assms(6) len by simp
  moreover have "rgbRed (?out ! i) = rgbRed (t ! i) \<and> rgbGreen (?out ! i) = rgbGreen (t ! i) \<and>
      rgbBlue (?out ! i) = rgbBlue (t ! i) \<and> rgbReserved (?out ! i) = 0"
    if "i < unat wEntries" for i
    using that assms(3)
    by (simp add: nth_append to_entry_def as_RGBQUAD_def swap_in_place_def)
  ultimately show ?thesis
    using create read fresh_handle_not_NULL by blast
qed

theorem palette_roundtrip_witness:
  "\<exists>h w' out.
     CreatePaletteFromRGBQUAD palette_display
       [\<lparr>rgbBlue = 3, rgbGreen = 2, rgbRed = 1, rgbReserved = 7\<rparr>] 1 = Some (h, w') \<and>
     h \<noteq> NULL \<and>
     CreateRGBQUADFromPalette w'
       [\<lparr>rgbBlue = 0, rgbGreen = 0, rgbRed = 0, rgbReserved = 9\<rparr>] h = Some (1, out) \<and>
     rgbRed (out ! 0) = 1 \<and> rgbGreen (out ! 0) = 2 \<and> rgbBlue (out ! 0) = 3 \<and>
     rgbReserved (out ! 0) = 0"
  using palette_roundtrip [of 1 "[\<lparr>rgbBlue = 3, rgbGreen = 2, rgbRed = 1, rgbReserved = 7\<rparr>]"
      palette_display "[\<lparr>rgbBlue = 0, rgbGreen = 0, rgbRed = 0, rgbReserved = 9\<rparr>]"]
  by (simp add: palette_display_def) blast

subsection \<open>The in-place swap\<close>

text \<open>
  C8. The three-step in-place transformation of \<open>CreateRGBQUADFromPalette\<close>'s loop
  (reserved := red; red := blue; blue := reserved; reserved := 0) equals, for every
  entry, the direct transformation that swaps red and blue and sets reserved to 0.
\<close>

theorem swap_in_place_is_swap_red_blue_zero:
  "swap_in_place q = swap_red_blue_zero q"
  by (simp add: swap_in_place_def swap_red_blue_zero_def)

subsection \<open>The device's palette size\<close>

text \<open>
  C9. \<open>PalEntriesOnDevice\<close> returns the palette size the device reports; when that is
  0 it returns the device's number of system colours instead. It is a total function of
  the device: there is no failure, and the count may be 0.
\<close>

theorem PalEntriesOnDevice_count:
  "PalEntriesOnDevice w hDC =
     (if GetDeviceCaps w hDC SIZEPALETTE = 0 then GetDeviceCaps w hDC NUMCOLORS
      else GetDeviceCaps w hDC SIZEPALETTE)"
  by (simp add: PalEntriesOnDevice_def Let_def)

subsection \<open>The null returns of GetSystemPalette\<close>

lemma GetDC_none: "screen_dc w = NULL \<Longrightarrow> GetDC w = (NULL, w)"
  by (simp add: GetDC_def)

lemma GetDC_some:
  "screen_dc w \<noteq> NULL \<Longrightarrow> GetDC w = (screen_dc w, w\<lparr>dc_held := Suc (dc_held w)\<rparr>)"
  by (simp add: GetDC_def)

lemma ReleaseDC_after_GetDC:
  "screen_dc w \<noteq> NULL \<Longrightarrow> ReleaseDC (w\<lparr>dc_held := Suc (dc_held w)\<rparr>) (screen_dc w) = w"
  by (simp add: ReleaseDC_def)

lemma GetDeviceCaps_dc_held:
  "GetDeviceCaps (w\<lparr>dc_held := n\<rparr>) hDC idx = GetDeviceCaps w hDC idx"
  by (simp add: GetDeviceCaps_def)

text \<open>
  C5. \<open>GetSystemPalette\<close> returns null when no device context can be acquired; when
  the raster capabilities of the device lack the palette bit, and then the context it
  acquired is released (the state is the one before the call); and when the allocation
  of the descriptor fails, and then the context is not released: one more context is
  held than before the call.
\<close>

theorem GetSystemPalette_null_paths:
  "(screen_dc w = NULL \<longrightarrow> GetSystemPalette w = Some (NULL, w)) \<and>
   (screen_dc w \<noteq> NULL \<and> GetDeviceCaps w (screen_dc w) RASTERCAPS AND RC_PALETTE = 0 \<longrightarrow>
      GetSystemPalette w = Some (NULL, w)) \<and>
   (screen_dc w \<noteq> NULL \<and> GetDeviceCaps w (screen_dc w) RASTERCAPS AND RC_PALETTE \<noteq> 0 \<and>
    \<not> heap_ok w \<longrightarrow>
      GetSystemPalette w = Some (NULL, w\<lparr>dc_held := Suc (dc_held w)\<rparr>))"
proof (intro conjI impI)
  assume "screen_dc w = NULL"
  then show "GetSystemPalette w = Some (NULL, w)"
    by (simp add: GetSystemPalette_def GetDC_none)
next
  assume a: "screen_dc w \<noteq> NULL \<and> GetDeviceCaps w (screen_dc w) RASTERCAPS AND RC_PALETTE = 0"
  then show "GetSystemPalette w = Some (NULL, w)"
    by (simp add: GetSystemPalette_def GetDC_some ReleaseDC_after_GetDC GetDeviceCaps_dc_held)
next
  assume a: "screen_dc w \<noteq> NULL \<and>
    GetDeviceCaps w (screen_dc w) RASTERCAPS AND RC_PALETTE \<noteq> 0 \<and> \<not> heap_ok w"
  then show "GetSystemPalette w = Some (NULL, w\<lparr>dc_held := Suc (dc_held w)\<rparr>)"
    by (simp add: GetSystemPalette_def GetDC_some GlobalAlloc_def Let_def GetDeviceCaps_dc_held)
qed

theorem GetSystemPalette_null_paths_witness:
  "GetSystemPalette (palette_display\<lparr>screen_dc := NULL\<rparr>) =
     Some (NULL, palette_display\<lparr>screen_dc := NULL\<rparr>) \<and>
   GetSystemPalette (palette_display\<lparr>devcaps := \<lambda>h idx. 0\<rparr>) =
     Some (NULL, palette_display\<lparr>devcaps := \<lambda>h idx. 0\<rparr>) \<and>
   GetSystemPalette (palette_display\<lparr>heap_ok := False\<rparr>) =
     Some (NULL, palette_display\<lparr>heap_ok := False, dc_held := 1\<rparr>)"
  using GetSystemPalette_null_paths [of "palette_display\<lparr>screen_dc := NULL\<rparr>"]
    GetSystemPalette_null_paths [of "palette_display\<lparr>devcaps := \<lambda>h idx. 0\<rparr>"]
    GetSystemPalette_null_paths [of "palette_display\<lparr>heap_ok := False\<rparr>"]
  by (simp add: palette_display_def NULL_def GetDeviceCaps_def RASTERCAPS_def RC_PALETTE_def
      SIZEPALETTE_def NUMCOLORS_def)

subsection \<open>The spectrum palette\<close>

lemma level_nonzero:
  assumes "0 < m" "m < 8"
  shows "level 32 m \<noteq> 0"
proof -
  from assms have "m = 1 \<or> m = 2 \<or> m = 3 \<or> m = 4 \<or> m = 5 \<or> m = 6 \<or> m = 7"
    by arith
  then show ?thesis by (auto simp: level_def)
qed

lemma level_0: "level step 0 = 0"
  by (simp add: level_def)

lemma level_32_8: "level 32 8 = 0"
  by (simp add: level_def)

lemma level_32_next: "level 32 m + 32 = level 32 (Suc m)"
  by (simp add: level_def)

lemma level_64_next: "level 64 m + 64 = level 64 (Suc m)"
  by (simp add: level_def)

lemma spectrum_next_no_wrap:
  "red + 32 \<noteq> 0 \<Longrightarrow> spectrum_next (red, green, blue) = (red + 32, green, blue)"
  by (simp add: spectrum_next_def Let_def)

lemma spectrum_next_red_wraps:
  "red + 32 = 0 \<Longrightarrow> green + 32 \<noteq> 0 \<Longrightarrow>
   spectrum_next (red, green, blue) = (0, green + 32, blue)"
  by (simp add: spectrum_next_def Let_def)

lemma spectrum_next_green_wraps:
  "red + 32 = 0 \<Longrightarrow> green + 32 = 0 \<Longrightarrow>
   spectrum_next (red, green, blue) = (0, 0, blue + 64)"
  by (simp add: spectrum_next_def Let_def)

lemma spectrum_next_colour: "spectrum_next (spectrum_colour k) = spectrum_colour (Suc k)"
proof -
  define g where "g = k div 8"
  have k64: "k div 64 = g div 8" and sk64: "Suc k div 64 = (Suc k div 8) div 8"
    by (simp_all add: g_def div_mult2_eq [symmetric])
  have cur: "spectrum_colour k = (level 32 (k mod 8), level 32 (g mod 8), level 64 (g div 8))"
    by (simp add: spectrum_colour_def k64 g_def)
  have nxt: "spectrum_colour (Suc k) =
      (level 32 (Suc k mod 8), level 32 (Suc k div 8 mod 8), level 64 (Suc k div 8 div 8))"
    by (simp only: spectrum_colour_def sk64)
  show ?thesis
  proof (cases "k mod 8 = 7")
    case False
    then have m: "Suc k mod 8 = Suc (k mod 8)" "Suc k div 8 = g"
      by (simp_all add: mod_Suc div_Suc g_def)
    from False have "Suc (k mod 8) < 8" by arith
    then have nz: "level 32 (k mod 8) + 32 \<noteq> 0"
      by (simp add: level_32_next level_nonzero)
    show ?thesis
      by (simp only: cur nxt m spectrum_next_no_wrap [OF nz] level_32_next)
  next
    case True
    then have m: "Suc k mod 8 = 0" "Suc k div 8 = Suc g"
      by (simp_all add: mod_Suc div_Suc g_def)
    have red: "level 32 (k mod 8) + 32 = 0"
      by (simp add: True level_32_next level_32_8)
    show ?thesis
    proof (cases "g mod 8 = 7")
      case False
      then have n: "Suc g mod 8 = Suc (g mod 8)" "Suc g div 8 = g div 8"
        by (simp_all add: mod_Suc div_Suc)
      from False have "Suc (g mod 8) < 8" by arith
      then have nz: "level 32 (g mod 8) + 32 \<noteq> 0"
        by (simp add: level_32_next level_nonzero)
      show ?thesis
        by (simp only: cur nxt m n spectrum_next_red_wraps [OF red nz] level_32_next level_0)
    next
      case g7: True
      then have n: "Suc g mod 8 = 0" "Suc g div 8 = Suc (g div 8)"
        by (simp_all add: mod_Suc div_Suc)
      have green: "level 32 (g mod 8) + 32 = 0"
        by (simp add: g7 level_32_next level_32_8)
      show ?thesis
        by (simp only: cur nxt m n spectrum_next_green_wraps [OF red green] level_64_next level_0)
    qed
  qed
qed

lemma spectrum_loop:
  assumes "length mem = MAXPALETTE"
  shows "\<exists>c. for_loop 0 (int MAXPALETTE)
          (\<lambda>i (c, es). do {
             es \<leftarrow> upd es i (\<lambda>e. e\<lparr>peRed := fst c, peGreen := fst (snd c),
                                     peBlue := snd (snd c), peFlags := 0\<rparr>);
             Some (spectrum_next c, es)
           })
          ((0, 0, 0), mem) = Some (MAXPALETTE, c, map spectrum_entry [0..<MAXPALETTE])"
proof -
  let ?body = "(\<lambda>i (c, es). do {
             es \<leftarrow> upd es i (\<lambda>e. e\<lparr>peRed := fst c, peGreen := fst (snd c),
                                     peBlue := snd (snd c), peFlags := 0\<rparr>);
             Some (spectrum_next c, es)
           })"
  let ?I = "\<lambda>j (s :: (BYTE \<times> BYTE \<times> BYTE) \<times> PALETTEENTRY list).
     fst s = spectrum_colour j \<and> length (snd s) = MAXPALETTE \<and>
     (\<forall>k<j. snd s ! k = spectrum_entry k)"
  have "\<exists>s'. for_loop 0 (int MAXPALETTE) ?body ((0, 0, 0), mem) =
          Some (max 0 (nat (int MAXPALETTE)), s') \<and> ?I (max 0 (nat (int MAXPALETTE))) s'"
  proof (rule for_loop_invariant [where I = ?I])
    show "?I 0 ((0, 0, 0), mem)"
      using assms by (simp add: spectrum_colour_def level_0)
  next
    fix j s
    assume j: "int j < int MAXPALETTE" and s: "?I j s"
    obtain c es where [simp]: "s = (c, es)" by (cases s)
    from j s have jl: "j < length es" by simp
    have "?body j s = Some (spectrum_next c, es[j := spectrum_entry j])"
      using s jl
      by (simp add: upd_Some entry_all_fields spectrum_entry_def split: prod.splits)
    moreover have "?I (Suc j) (spectrum_next c, es[j := spectrum_entry j])"
      using s jl by (auto simp: spectrum_next_colour nth_list_update less_Suc_eq)
    ultimately show "\<exists>t'. ?body j s = Some t' \<and> ?I (Suc j) t'" by blast
  qed
  then obtain c es where r: "for_loop 0 (int MAXPALETTE) ?body ((0, 0, 0), mem) =
        Some (MAXPALETTE, c, es)" "length es = MAXPALETTE"
      "\<forall>k<MAXPALETTE. es ! k = spectrum_entry k"
    by auto
  then have "es = map spectrum_entry [0..<MAXPALETTE]"
    by (auto simp: list_eq_iff_nth_eq)
  with r(1) show ?thesis by blast
qed

lemma CreateSpectrumPalette_descriptor_eq:
  assumes "length mem = MAXPALETTE"
  shows "CreateSpectrumPalette_descriptor mem =
     Some \<lparr>palVersion = PALVERSION, palNumEntries = 256,
           palPalEntry = map spectrum_entry [0..<MAXPALETTE]\<rparr>"
proof -
  from spectrum_loop [OF assms] obtain c where
    "for_loop 0 (int MAXPALETTE)
          (\<lambda>i (c, es). do {
             es \<leftarrow> upd es i (\<lambda>e. e\<lparr>peRed := fst c, peGreen := fst (snd c),
                                     peBlue := snd (snd c), peFlags := 0\<rparr>);
             Some (spectrum_next c, es)
           })
          ((0, 0, 0), mem) = Some (MAXPALETTE, c, map spectrum_entry [0..<MAXPALETTE])" ..
  then show ?thesis
    by (simp add: CreateSpectrumPalette_descriptor_def) (simp add: MAXPALETTE_def)
qed

lemma unat_level_32: "m < 8 \<Longrightarrow> unat (level 32 m) = 32 * m"
  by (simp add: level_def unat_of_nat del: of_nat_mult)

lemma unat_level_64: "m < 4 \<Longrightarrow> unat (level 64 m) = 64 * m"
  by (simp add: level_def unat_of_nat del: of_nat_mult)

lemma levels_spectrum_entry:
  assumes "k < 256"
  shows "levels (spectrum_entry k) = (32 * (k mod 8), 32 * (k div 8 mod 8), 64 * (k div 64))"
proof -
  from assms have "k div 64 < 4" by simp
  then show ?thesis
    by (simp add: levels_def spectrum_entry_def spectrum_colour_def unat_level_32 unat_level_64)
qed

lemma levels_spectrum_next:
  "(case spectrum_next (red, green, blue) of (r, g, b) \<Rightarrow> (unat r, unat g, unat b)) =
     wrapping_counter_step (unat red, unat green, unat blue)"
  by (simp add: spectrum_next_def wrapping_counter_step_def Let_def unat_word_ariths
      unat_eq_0 [symmetric])

lemma levels_spectrum_entry_Suc:
  "levels (spectrum_entry (Suc k)) = wrapping_counter_step (levels (spectrum_entry k))"
proof -
  obtain red green blue where c: "spectrum_colour k = (red, green, blue)"
    by (cases "spectrum_colour k")
  have "spectrum_colour (Suc k) = spectrum_next (red, green, blue)"
    by (simp add: spectrum_next_colour [symmetric] c)
  then show ?thesis
    using levels_spectrum_next [of red green blue]
    by (simp add: levels_def spectrum_entry_def c split: prod.splits)
qed

lemma red_level_values:
  assumes "m < 8"
  shows "32 * m \<in> {0, 32, 64, 96, 128, 160, 192, 224 :: nat}"
proof -
  from assms have "m = 0 \<or> m = 1 \<or> m = 2 \<or> m = 3 \<or> m = 4 \<or> m = 5 \<or> m = 6 \<or> m = 7"
    by arith
  then show ?thesis by auto
qed

text \<open>
  C4. In the memory of 256 entries that the allocation returns,
  \<open>CreateSpectrumPalette\<close> builds a descriptor of exactly 256 entries, all with flags
  0, generated by the nested wrapping counter: entry 0 is (0,0,0) and each next entry is
  one step of the counter (red by 32 wrapping at 256, green by 32 when red wraps, blue by
  64 when green wraps). Entry \<open>k\<close> is (32 (k mod 8), 32 (k div 8 mod 8), 64 (k div 64));
  entry 8 has red 0 and green 32; red only takes the values 0, 32, ..., 224.
\<close>

theorem CreateSpectrumPalette_descriptor_spectrum:
  assumes "length mem = MAXPALETTE"
  shows "\<exists>lp. CreateSpectrumPalette_descriptor mem = Some lp \<and>
     unat (palNumEntries lp) = 256 \<and> length (palPalEntry lp) = 256 \<and>
     (\<forall>k<256. peFlags (palPalEntry lp ! k) = 0 \<and>
        levels (palPalEntry lp ! k) = (32 * (k mod 8), 32 * (k div 8 mod 8), 64 * (k div 64)) \<and>
        fst (levels (palPalEntry lp ! k)) \<in> {0, 32, 64, 96, 128, 160, 192, 224}) \<and>
     (\<forall>k<255. levels (palPalEntry lp ! Suc k) =
        wrapping_counter_step (levels (palPalEntry lp ! k))) \<and>
     levels (palPalEntry lp ! 0) = (0, 0, 0) \<and>
     fst (levels (palPalEntry lp ! 8)) = 0 \<and> fst (snd (levels (palPalEntry lp ! 8))) = 32"
proof -
  let ?es = "map spectrum_entry [0..<MAXPALETTE]"
  let ?lp = "\<lparr>palVersion = PALVERSION, palNumEntries = 256, palPalEntry = ?es\<rparr>"
  have nth: "?es ! k = spectrum_entry k" if "k < 256" for k
    using that by (simp add: MAXPALETTE_def)
  have flags: "peFlags (spectrum_entry k) = 0" for k
    by (simp add: spectrum_entry_def split: prod.splits)
  have each: "peFlags (?es ! k) = 0 \<and>
        levels (?es ! k) = (32 * (k mod 8), 32 * (k div 8 mod 8), 64 * (k div 64)) \<and>
        fst (levels (?es ! k)) \<in> {0, 32, 64, 96, 128, 160, 192, 224}" if "k < 256" for k
    using that red_level_values [of "k mod 8"]
    by (simp only: nth flags levels_spectrum_entry fst_conv)
  have step: "levels (?es ! Suc k) = wrapping_counter_step (levels (?es ! k))" if "k < 255" for k
    using that by (simp add: nth levels_spectrum_entry_Suc)
  have sel: "palPalEntry ?lp = ?es" "palNumEntries ?lp = 256"
    by simp_all
  have a: "CreateSpectrumPalette_descriptor mem = Some ?lp"
    by (rule CreateSpectrumPalette_descriptor_eq [OF assms])
  have b: "unat (palNumEntries ?lp) = 256" "length (palPalEntry ?lp) = 256"
    by (simp_all add: MAXPALETTE_def)
  have c: "\<forall>k<256. peFlags (palPalEntry ?lp ! k) = 0 \<and>
        levels (palPalEntry ?lp ! k) = (32 * (k mod 8), 32 * (k div 8 mod 8), 64 * (k div 64)) \<and>
        fst (levels (palPalEntry ?lp ! k)) \<in> {0, 32, 64, 96, 128, 160, 192, 224}"
    unfolding sel using each by blast
  have d: "\<forall>k<255. levels (palPalEntry ?lp ! Suc k) =
        wrapping_counter_step (levels (palPalEntry ?lp ! k))"
    unfolding sel using step by blast
  have e: "levels (palPalEntry ?lp ! 0) = (0, 0, 0)"
    "fst (levels (palPalEntry ?lp ! 8)) = 0" "fst (snd (levels (palPalEntry ?lp ! 8))) = 32"
    unfolding sel by (simp_all add: nth levels_spectrum_entry)
  from a b c d e show ?thesis by blast
qed

theorem CreateSpectrumPalette_descriptor_spectrum_witness:
  "\<exists>lp. CreateSpectrumPalette_descriptor (replicate 256 zero_entry) = Some lp \<and>
     levels (palPalEntry lp ! 7) = (224, 0, 0) \<and>
     levels (palPalEntry lp ! 8) = (0, 32, 0) \<and>
     levels (palPalEntry lp ! 64) = (0, 0, 64) \<and>
     levels (palPalEntry lp ! 255) = (224, 224, 192) \<and>
     peFlags (palPalEntry lp ! 255) = 0"
proof -
  have "length (replicate 256 zero_entry) = MAXPALETTE"
    by (simp add: MAXPALETTE_def)
  from CreateSpectrumPalette_descriptor_spectrum [OF this]
  obtain lp where lp: "CreateSpectrumPalette_descriptor (replicate 256 zero_entry) = Some lp"
    and each: "\<forall>k<256. peFlags (palPalEntry lp ! k) = 0 \<and>
        levels (palPalEntry lp ! k) = (32 * (k mod 8), 32 * (k div 8 mod 8), 64 * (k div 64)) \<and>
        fst (levels (palPalEntry lp ! k)) \<in> {0, 32, 64, 96, 128, 160, 192, 224}"
    by blast
  from each have "levels (palPalEntry lp ! 7) = (224, 0, 0)"
    "levels (palPalEntry lp ! 8) = (0, 32, 0)"
    "levels (palPalEntry lp ! 64) = (0, 0, 64)"
    "levels (palPalEntry lp ! 255) = (224, 224, 192)"
    "peFlags (palPalEntry lp ! 255) = 0"
    by simp_all
  with lp show ?thesis by blast
qed

subsection \<open>Copying a palette with a flag override\<close>

lemma GetObject_valid:
  "palette_of w h = Some es \<Longrightarrow> GetObject w h v = (2, Some (of_nat (length es)))"
  by (simp add: GetObject_def)

lemma GetObject_invalid: "palette_of w h = None \<Longrightarrow> GetObject w h v = (0, v)"
  by (simp add: GetObject_def)

lemma unat_count:
  "n \<le> 256 \<Longrightarrow> unat (of_nat n :: WORD) = n"
  by (simp add: unat_of_nat)

lemma uint_count:
  "n \<le> 256 \<Longrightarrow> uint (of_nat n :: WORD) = int n"
  by (simp add: uint_nat unat_count)

lemma GetPaletteEntries_all:
  assumes "palette_of w h = Some es" "length es \<le> length buf"
  shows "GetPaletteEntries w h 0 (length es) buf = Some (length es, es @ drop (length es) buf)"
  using assms by (simp add: GetPaletteEntries_def CopyMemory_def)

lemma GetPaletteEntries_invalid:
  "palette_of w h = None \<Longrightarrow> GetPaletteEntries w h start n buf = Some (0, buf)"
  by (simp add: GetPaletteEntries_def)

lemma palette_of_NULL: "palette_of w NULL = None"
  by (simp add: palette_of_def)

lemma CopyPalette_ok:
  assumes "palette_of w hPal = Some es" "length es \<le> 256" "heap_ok w" "gdi_ok w"
  shows "CopyPalette w hPal =
           Some (fresh_handle w, w\<lparr>objects := (fresh_handle w, es) # objects w\<rparr>)"
proof -
  have n: "unat (of_nat (length es) :: WORD) = length es"
    using assms(2) by (rule unat_count)
  have rd: "GetPaletteEntries w hPal 0 (length es) (replicate (length es) zero_entry) =
      Some (length es, es)"
    using GetPaletteEntries_all [OF assms(1), of "replicate (length es) zero_entry"] by simp
  show ?thesis
    using assms(3,4)
    by (simp add: CopyPalette_def GetObject_valid [OF assms(1)] n GlobalAlloc_def rd
        CreatePalette_ok)
qed

lemma CopyPalette_fails:
  assumes "palette_of w hPal = Some es" "length es \<le> 256" "\<not> heap_ok w \<or> \<not> gdi_ok w"
  shows "CopyPalette w hPal = Some (NULL, w)"
proof -
  have n: "unat (of_nat (length es) :: WORD) = length es"
    using assms(2) by (rule unat_count)
  have rd: "GetPaletteEntries w hPal 0 (length es) (replicate (length es) zero_entry) =
      Some (length es, es)"
    using GetPaletteEntries_all [OF assms(1), of "replicate (length es) zero_entry"] by simp
  show ?thesis
    using assms(3)
    by (auto simp: CopyPalette_def GetObject_valid [OF assms(1)] n GlobalAlloc_def rd
        CreatePalette_def)
qed

lemma CopyPaletteEx_copy_failed:
  assumes "palette_of w hPal = Some es" "length es \<le> 256"
    and "CopyPalette w hPal = Some (NULL, w1)"
  shows "CopyPaletteEx w hPal bFlag garbage = Some (NULL, w1)"
proof -
  let ?pe = "map garbage [0..<MAXPALETTE]"
  let ?f = "\<lambda>e. e\<lparr>peFlags := bFlag\<rparr>"
  from assms(1) have h: "hPal \<noteq> NULL"
    by (auto simp: palette_of_def)
  have loop: "for_loop 0 (int (length es)) (\<lambda>i pe. upd pe i ?f) ?pe =
      Some (length es, map ?f (take (length es) ?pe) @ drop (length es) ?pe)"
    by (rule for_loop_upd_prefix) (use assms(2) in \<open>simp add: MAXPALETTE_def\<close>)
  show ?thesis
    using h
    by (simp add: CopyPaletteEx_def GetObject_valid [OF assms(1)] assms(3)
        GetPaletteEntries_invalid palette_of_NULL unat_count [OF assms(2)]
        uint_count [OF assms(2)] loop SetPaletteEntries_def)
qed

lemma CopyPaletteEx_ok:
  assumes "palette_of w hPal = Some es" "length es \<le> 256" "heap_ok w" "gdi_ok w"
  shows "CopyPaletteEx w hPal bFlag garbage =
     Some (fresh_handle w,
           w\<lparr>objects := (fresh_handle w, map (\<lambda>e. e\<lparr>peFlags := bFlag\<rparr>) es) # objects w\<rparr>)"
proof -
  let ?pe = "map garbage [0..<MAXPALETTE]"
  let ?f = "\<lambda>e. e\<lparr>peFlags := bFlag\<rparr>"
  let ?h = "fresh_handle w"
  let ?w1 = "w\<lparr>objects := (?h, es) # objects w\<rparr>"
  from assms(1) have h: "hPal \<noteq> NULL"
    by (auto simp: palette_of_def)
  have new: "palette_of ?w1 ?h = Some es"
    by (rule palette_of_created)
  have rd: "GetPaletteEntries ?w1 ?h 0 (length es) ?pe = Some (length es, es @ drop (length es) ?pe)"
    by (rule GetPaletteEntries_all [OF new]) (use assms(2) in \<open>simp add: MAXPALETTE_def\<close>)
  have loop: "for_loop 0 (int (length es)) (\<lambda>i pe. upd pe i ?f) (es @ drop (length es) ?pe) =
      Some (length es, map ?f (take (length es) (es @ drop (length es) ?pe)) @
                       drop (length es) (es @ drop (length es) ?pe))"
    by (rule for_loop_upd_prefix) (use assms(2) in \<open>simp add: MAXPALETTE_def\<close>)
  have wr: "SetPaletteEntries ?w1 ?h 0 (length es) (map ?f es @ drop (length es) ?pe) =
      Some (length es, w\<lparr>objects := (?h, map ?f es) # objects w\<rparr>)"
    by (simp add: SetPaletteEntries_def new)
  show ?thesis
    using h
    by (simp add: CopyPaletteEx_def GetObject_valid [OF assms(1)]
        CopyPalette_ok [OF assms] unat_count [OF assms(2)] uint_count [OF assms(2)]
        rd loop wr)
qed

text \<open>
  C6 (amended). For every source palette of at most \<open>MAXPALETTE\<close> = 256 entries (the
  size of the local array \<open>pe\<close>) and every flag byte, when the allocation and the
  creation succeed, \<open>CopyPaletteEx\<close> returns a new palette, distinct from the source,
  with as many entries, each with the flag byte given and the colour of the source's
  entry; the source is unchanged. It returns null when the handle is null or names no
  palette (the count query fails), whatever the palette's size, and, for a palette of
  at most 256 entries, when the underlying \<open>CopyPalette\<close> returns null.
\<close>

theorem CopyPaletteEx_flags:
  "(palette_of w hPal = Some es \<and> length es \<le> 256 \<and> heap_ok w \<and> gdi_ok w \<longrightarrow>
      (\<exists>h w' es'. CopyPaletteEx w hPal bFlag garbage = Some (h, w') \<and>
         h \<noteq> NULL \<and> h \<noteq> hPal \<and> palette_of w' hPal = Some es \<and>
         palette_of w' h = Some es' \<and> length es' = length es \<and>
         (\<forall>i<length es. peFlags (es' ! i) = bFlag \<and> colour (es' ! i) = colour (es ! i)))) \<and>
   (hPal = NULL \<or> palette_of w hPal = None \<longrightarrow>
      CopyPaletteEx w hPal bFlag garbage = Some (NULL, w)) \<and>
   (palette_of w hPal = Some es \<and> length es \<le> 256 \<and> CopyPalette w hPal = Some (NULL, w1) \<longrightarrow>
      CopyPaletteEx w hPal bFlag garbage = Some (NULL, w1))"
proof (intro conjI impI)
  assume a: "palette_of w hPal = Some es \<and> length es \<le> 256 \<and> heap_ok w \<and> gdi_ok w"
  let ?h = "fresh_handle w"
  let ?es' = "map (\<lambda>e. e\<lparr>peFlags := bFlag\<rparr>) es"
  let ?w' = "w\<lparr>objects := (?h, ?es') # objects w\<rparr>"
  from a have run: "CopyPaletteEx w hPal bFlag garbage = Some (?h, ?w')"
    by (intro CopyPaletteEx_ok) simp_all
  from a have lt: "hPal < ?h" by (intro fresh_handle_greater) simp
  then have ne: "?h \<noteq> hPal" by simp
  have new: "palette_of ?w' ?h = Some ?es'"
    by (rule palette_of_created)
  have old: "palette_of ?w' hPal = Some es"
    using a ne by (auto simp: palette_of_def split: if_splits)
  have each: "\<forall>i<length es. peFlags (?es' ! i) = bFlag \<and> colour (?es' ! i) = colour (es ! i)"
    by (simp add: colour_def)
  have "length ?es' = length es" by simp
  with run ne new old each fresh_handle_not_NULL
  show "\<exists>h w' es'. CopyPaletteEx w hPal bFlag garbage = Some (h, w') \<and>
         h \<noteq> NULL \<and> h \<noteq> hPal \<and> palette_of w' hPal = Some es \<and>
         palette_of w' h = Some es' \<and> length es' = length es \<and>
         (\<forall>i<length es. peFlags (es' ! i) = bFlag \<and> colour (es' ! i) = colour (es ! i))"
    by blast
next
  assume "hPal = NULL \<or> palette_of w hPal = None"
  then show "CopyPaletteEx w hPal bFlag garbage = Some (NULL, w)"
    by (auto simp: CopyPaletteEx_def GetObject_invalid)
next
  assume "palette_of w hPal = Some es \<and> length es \<le> 256 \<and> CopyPalette w hPal = Some (NULL, w1)"
  then show "CopyPaletteEx w hPal bFlag garbage = Some (NULL, w1)"
    by (intro CopyPaletteEx_copy_failed [of w hPal es]) simp_all
qed

theorem CopyPaletteEx_flags_witness:
  "(\<exists>h w' es'. CopyPaletteEx palette_display 1 4 (\<lambda>i. zero_entry) = Some (h, w') \<and>
      h \<noteq> NULL \<and> h \<noteq> 1 \<and> palette_of w' h = Some es' \<and> length es' = 20 \<and>
      peFlags (es' ! 19) = 4 \<and> colour (es' ! 19) = (0, 0, 0)) \<and>
   CopyPaletteEx palette_display NULL 4 (\<lambda>i. zero_entry) = Some (NULL, palette_display) \<and>
   CopyPaletteEx (palette_display\<lparr>heap_ok := False\<rparr>) 1 4 (\<lambda>i. zero_entry) =
     Some (NULL, palette_display\<lparr>heap_ok := False\<rparr>)"
proof -
  let ?es = "replicate 20 zero_entry"
  have p: "palette_of palette_display 1 = Some ?es"
    by (simp add: palette_of_def palette_display_def NULL_def)
  have ok: "heap_ok palette_display" "gdi_ok palette_display"
    by (simp_all add: palette_display_def)
  have len: "length ?es \<le> 256" by simp
  from CopyPaletteEx_flags [of palette_display 1 ?es 4 "\<lambda>i. zero_entry" palette_display,
      THEN conjunct1] p ok len
  obtain h w' es' where r: "CopyPaletteEx palette_display 1 4 (\<lambda>i. zero_entry) = Some (h, w')"
      "h \<noteq> NULL" "h \<noteq> 1" "palette_of w' h = Some es'" "length es' = length ?es"
      "\<forall>i<length ?es. peFlags (es' ! i) = 4 \<and> colour (es' ! i) = colour (?es ! i)"
    by blast
  from r(6) have "peFlags (es' ! 19) = 4 \<and> colour (es' ! 19) = (0, 0, 0)"
    by (simp add: colour_def zero_entry_def)
  with r have first: "\<exists>h w' es'. CopyPaletteEx palette_display 1 4 (\<lambda>i. zero_entry) = Some (h, w') \<and>
      h \<noteq> NULL \<and> h \<noteq> 1 \<and> palette_of w' h = Some es' \<and> length es' = 20 \<and>
      peFlags (es' ! 19) = 4 \<and> colour (es' ! 19) = (0, 0, 0)"
    by auto
  have second: "CopyPaletteEx palette_display NULL 4 (\<lambda>i. zero_entry) = Some (NULL, palette_display)"
    using CopyPaletteEx_flags [of palette_display NULL] by simp
  let ?w = "palette_display\<lparr>heap_ok := False\<rparr>"
  have q: "palette_of ?w 1 = Some ?es"
    by (simp add: palette_of_def palette_display_def NULL_def)
  have "CopyPalette ?w 1 = Some (NULL, ?w)"
    by (rule CopyPalette_fails [OF q]) simp_all
  with q have third: "CopyPaletteEx ?w 1 4 (\<lambda>i. zero_entry) = Some (NULL, ?w)"
    using CopyPaletteEx_flags [of ?w 1 ?es 4 "\<lambda>i. zero_entry" ?w] by simp
  from first second third show ?thesis by blast
qed

text \<open>
  Without the bound on the entries the statement fails: the function has no guard on
  the count, and for a source palette of 257 entries (with the allocation and the
  creation succeeding) the read of the copy's entries into \<open>pe[MAXPALETTE]\<close> leaves the
  array. No palette is returned: the behaviour is undefined.
\<close>

lemma unat_word_count:
  "n < 65536 \<Longrightarrow> unat (of_nat n :: WORD) = n"
  by (simp add: unat_of_nat)

lemma CopyPalette_created:
  assumes "palette_of w hPal = Some es" "length es < 65536" "heap_ok w" "gdi_ok w"
  shows "CopyPalette w hPal =
           Some (fresh_handle w, w\<lparr>objects := (fresh_handle w, es) # objects w\<rparr>)"
proof -
  have n: "unat (of_nat (length es) :: WORD) = length es"
    using assms(2) by (rule unat_word_count)
  have rd: "GetPaletteEntries w hPal 0 (length es) (replicate (length es) zero_entry) =
      Some (length es, es)"
    using GetPaletteEntries_all [OF assms(1), of "replicate (length es) zero_entry"] by simp
  show ?thesis
    using assms(3,4)
    by (simp add: CopyPalette_def GetObject_valid [OF assms(1)] n GlobalAlloc_def rd
        CreatePalette_ok)
qed

lemma CopyPaletteEx_overrun:
  assumes "palette_of w hPal = Some es" "256 < length es" "length es < 65536"
    and "heap_ok w" "gdi_ok w"
  shows "CopyPaletteEx w hPal bFlag garbage = None"
proof -
  let ?pe = "map garbage [0..<MAXPALETTE]"
  let ?h = "fresh_handle w"
  let ?w1 = "w\<lparr>objects := (?h, es) # objects w\<rparr>"
  from assms(1) have h: "hPal \<noteq> NULL"
    by (auto simp: palette_of_def)
  have n: "unat (of_nat (length es) :: WORD) = length es"
    using assms(3) by (rule unat_word_count)
  have new: "palette_of ?w1 ?h = Some es"
    by (rule palette_of_created)
  have rd: "GetPaletteEntries ?w1 ?h 0 (length es) ?pe = None"
    using assms(2) by (simp add: GetPaletteEntries_def new CopyMemory_def MAXPALETTE_def)
  show ?thesis
    using h
    by (simp add: CopyPaletteEx_def GetObject_valid [OF assms(1)]
        CopyPalette_created [OF assms(1,3,4,5)] n rd)
qed

theorem CopyPaletteEx_overruns_257_entries:
  "palette_of (palette_display\<lparr>objects := [(1, replicate 257 zero_entry)]\<rparr>) 1 =
     Some (replicate 257 zero_entry) \<and>
   heap_ok (palette_display\<lparr>objects := [(1, replicate 257 zero_entry)]\<rparr>) \<and>
   gdi_ok (palette_display\<lparr>objects := [(1, replicate 257 zero_entry)]\<rparr>) \<and>
   CopyPaletteEx (palette_display\<lparr>objects := [(1, replicate 257 zero_entry)]\<rparr>) 1 4
     (\<lambda>i. zero_entry) = None"
proof -
  let ?w = "palette_display\<lparr>objects := [(1, replicate 257 zero_entry)]\<rparr>"
  have p: "palette_of ?w 1 = Some (replicate 257 zero_entry)"
    by (simp add: palette_of_def NULL_def)
  have ok: "heap_ok ?w" "gdi_ok ?w"
    by (simp_all add: palette_display_def)
  have "CopyPaletteEx ?w 1 4 (\<lambda>i. zero_entry) = None"
    by (rule CopyPaletteEx_overrun [OF p _ _ ok]) simp_all
  with p ok show ?thesis by (intro conjI)
qed

subsection \<open>Loops that write one entry per pass\<close>

lemma for_loop_pointwise:
  assumes bound: "\<And>j. i \<le> j \<Longrightarrow> int j < n \<Longrightarrow> j < length xs"
    and body: "\<And>j b. i \<le> j \<Longrightarrow> int j < n \<Longrightarrow> length b = length xs \<Longrightarrow>
                 body j b = Some (b[j := g j (b ! j)])"
  shows "\<exists>ys. for_loop i n body xs = Some (max i (nat n), ys) \<and> length ys = length xs \<and>
           (\<forall>k<length xs. ys ! k = (if i \<le> k \<and> int k < n then g k (xs ! k) else xs ! k))"
proof -
  let ?I = "\<lambda>j b. length b = length xs \<and>
     (\<forall>k<length xs. b ! k = (if i \<le> k \<and> k < j then g k (xs ! k) else xs ! k))"
  have "\<exists>s'. for_loop i n body xs = Some (max i (nat n), s') \<and> ?I (max i (nat n)) s'"
  proof (rule for_loop_invariant [where I = ?I])
    show "?I i xs" by auto
  next
    fix j b
    assume ij: "i \<le> j" and jn: "int j < n" and b: "?I j b"
    from bound [OF ij jn] have jl: "j < length xs" .
    from b jl have bj: "b ! j = xs ! j" by simp
    from body [OF ij jn] b have run: "body j b = Some (b[j := g j (xs ! j)])"
      by (simp add: bj)
    have "?I (Suc j) (b[j := g j (xs ! j)])"
      using b ij jl by (auto simp: nth_list_update less_Suc_eq)
    with run show "\<exists>t'. body j b = Some t' \<and> ?I (Suc j) t'" by blast
  qed
  then obtain ys where ys: "for_loop i n body xs = Some (max i (nat n), ys)"
    "length ys = length xs"
    "\<forall>k<length xs. ys ! k = (if i \<le> k \<and> k < max i (nat n) then g k (xs ! k) else xs ! k)"
    by blast
  have "(i \<le> k \<and> k < max i (nat n)) = (i \<le> k \<and> int k < n)" for k
    by auto
  with ys show ?thesis by auto
qed

lemma flags_loop:
  assumes "\<And>j. i \<le> j \<Longrightarrow> int j < n \<Longrightarrow> j < length xs"
  shows "\<exists>ys. for_loop i n (\<lambda>i a. upd a i (\<lambda>e. e\<lparr>peFlags := fl\<rparr>)) xs = Some (max i (nat n), ys) \<and>
           length ys = length xs \<and>
           (\<forall>k<length xs. ys ! k =
              (if i \<le> k \<and> int k < n then (xs ! k)\<lparr>peFlags := fl\<rparr> else xs ! k))"
  by (rule for_loop_pointwise [where g = "\<lambda>j e. e\<lparr>peFlags := fl\<rparr>"])
     (use assms in \<open>simp_all add: upd_Some\<close>)

lemma table_loop:
  assumes "\<And>j. i \<le> j \<Longrightarrow> int j < n \<Longrightarrow> j < length xs \<and> j < length t"
  shows "\<exists>ys. for_loop i n
            (\<lambda>i a. do {
               q \<leftarrow> rd t i;
               upd a i (\<lambda>e. e\<lparr>peRed := rgbRed q, peGreen := rgbGreen q,
                              peBlue := rgbBlue q, peFlags := fl\<rparr>)
             }) xs = Some (max i (nat n), ys) \<and>
           length ys = length xs \<and>
           (\<forall>k<length xs. ys ! k =
              (if i \<le> k \<and> int k < n then to_entry fl (t ! k) else xs ! k))"
  by (rule for_loop_pointwise [where g = "\<lambda>j e. to_entry fl (t ! j)"])
     (use assms in \<open>simp_all add: upd_Some rd_Some entry_all_fields to_entry_def\<close>)

lemma for_loop_preserves:
  assumes "for_loop i n body s = Some (j, s')" "P s"
    and "\<And>k t t'. P t \<Longrightarrow> body k t = Some t' \<Longrightarrow> P t'"
  shows "P s'"
  using assms
proof (induction i n body s rule: for_loop.induct)
  case (1 i n body s)
  show ?case
  proof (cases "int i < n")
    case False
    with "1.prems"(1,2) show ?thesis by (simp add: for_loop_done)
  next
    case True
    with "1.prems"(1) obtain t where t: "body i s = Some t"
      "for_loop (Suc i) n body t = Some (j, s')"
      by (auto simp: for_loop_step split: option.splits)
    from "1.prems"(3) [OF "1.prems"(2) t(1)] have "P t" .
    from "1.IH" [OF True t(1) t(2) this "1.prems"(3)] show ?thesis .
  qed
qed

lemma upd_length: "upd xs i f = Some ys \<Longrightarrow> length ys = length xs"
  by (auto simp: upd_def split: if_splits)

lemma table_body_length:
  "(do { q \<leftarrow> rd t i; upd a i (f q) }) = Some a' \<Longrightarrow> length a' = length a"
  by (auto simp: rd_def upd_def split: if_splits)

subsection \<open>The identity palette under the exclusive-use policy\<close>

lemma nostatic_entries_result:
  assumes use: "GetSystemPaletteUse w hDC = SYSPAL_NOSTATIC"
    and r: "IdentityPalette_entries w hDC lprgbq nColors = Some d"
  shows "length d = 256 \<and>
         d ! 0 = \<lparr>peRed = 0, peGreen = 0, peBlue = 0, peFlags = 0\<rparr> \<and>
         d ! 255 = \<lparr>peRed = 255, peGreen = 255, peBlue = 255, peFlags = 0\<rparr>"
proof -
  let ?copy = "\<lambda>i a. do {
              q \<leftarrow> rd lprgbq i;
              upd a i (\<lambda>e. e\<lparr>peRed := rgbRed q, peGreen := rgbGreen q,
                             peBlue := rgbBlue q, peFlags := PC_NOCOLLAPSE\<rparr>)
            }"
  let ?mark = "\<lambda>i a. upd a i (\<lambda>e. e\<lparr>peFlags := PC_NOCOLLAPSE\<rparr>)"
  from r use obtain i1 a1 i2 a2 a3 where
    l1: "for_loop 0 nColors ?copy (replicate MAXPALETTE zero_entry) = Some (i1, a1)" and
    l2: "for_loop i1 (int MAXPALETTE) ?mark a1 = Some (i2, a2)" and
    u1: "upd a2 255 (\<lambda>e. e\<lparr>peRed := 255, peGreen := 255, peBlue := 255, peFlags := 0\<rparr>) = Some a3" and
    u2: "upd a3 0 (\<lambda>e. e\<lparr>peRed := 0, peGreen := 0, peBlue := 0, peFlags := 0\<rparr>) = Some d"
    by (auto simp: IdentityPalette_entries_def Let_def bind_eq_Some_conv)
  have "length a1 = 256"
    by (rule for_loop_preserves [OF l1, where P = "\<lambda>a. length a = 256"])
       (simp_all add: MAXPALETTE_def table_body_length)
  then have "length a2 = 256"
    by (rule for_loop_preserves [OF l2, where P = "\<lambda>a. length a = 256"])
       (simp add: upd_length)
  with u1 have a3: "a3 = a2[255 := \<lparr>peRed = 255, peGreen = 255, peBlue = 255, peFlags = 0\<rparr>]"
    by (simp add: upd_def entry_all_fields)
  with u2 \<open>length a2 = 256\<close>
  have d: "d = a3[0 := \<lparr>peRed = 0, peGreen = 0, peBlue = 0, peFlags = 0\<rparr>]"
    by (simp add: upd_def entry_all_fields)
  from a3 d \<open>length a2 = 256\<close> show ?thesis by simp
qed

lemma nostatic_entries_defined:
  assumes use: "GetSystemPaletteUse w hDC = SYSPAL_NOSTATIC"
    and fit: "nColors \<le> 256" "nColors \<le> int (length lprgbq)"
  shows "\<exists>d. IdentityPalette_entries w hDC lprgbq nColors = Some d"
proof -
  let ?zero = "replicate MAXPALETTE zero_entry"
  have "\<And>j. 0 \<le> j \<Longrightarrow> int j < nColors \<Longrightarrow> j < length ?zero \<and> j < length lprgbq"
    using fit by (simp add: MAXPALETTE_def)
  from table_loop [of 0 nColors ?zero lprgbq PC_NOCOLLAPSE, OF this]
  obtain a1 where a1: "for_loop 0 nColors
            (\<lambda>i a. do {
               q \<leftarrow> rd lprgbq i;
               upd a i (\<lambda>e. e\<lparr>peRed := rgbRed q, peGreen := rgbGreen q,
                              peBlue := rgbBlue q, peFlags := PC_NOCOLLAPSE\<rparr>)
             }) ?zero = Some (max 0 (nat nColors), a1)" "length a1 = 256"
    by (auto simp: MAXPALETTE_def)
  have "\<And>j. max 0 (nat nColors) \<le> j \<Longrightarrow> int j < int MAXPALETTE \<Longrightarrow> j < length a1"
    using a1(2) by (simp add: MAXPALETTE_def)
  from flags_loop [of "max 0 (nat nColors)" "int MAXPALETTE" a1 PC_NOCOLLAPSE, OF this]
  obtain a2 where a2: "for_loop (max 0 (nat nColors)) (int MAXPALETTE)
      (\<lambda>i a. upd a i (\<lambda>e. e\<lparr>peFlags := PC_NOCOLLAPSE\<rparr>)) a1 =
        Some (max (max 0 (nat nColors)) (nat (int MAXPALETTE)), a2)" "length a2 = 256"
    using a1(2) by auto
  have u1: "upd a2 255 f = Some (a2[255 := f (a2 ! 255)])" for f
    by (rule upd_Some) (simp add: a2(2))
  have u2: "upd (a2[255 := e]) 0 f = Some ((a2[255 := e])[0 := f ((a2[255 := e]) ! 0)])" for e f
    by (rule upd_Some) (simp add: a2(2))
  show ?thesis
    using use a1(1) a2(1)
    by (simp add: IdentityPalette_entries_def Let_def u1 u2)
qed

lemma GetSystemPaletteUse_screen:
  "screen_dc w \<noteq> NULL \<Longrightarrow>
   GetSystemPaletteUse (w\<lparr>dc_held := m\<rparr>) (screen_dc w) = palette_use w"
  by (simp add: GetSystemPaletteUse_def)

lemma CreateIdentityPalette_descriptor_screen:
  assumes "screen_dc w \<noteq> NULL"
  shows "CreateIdentityPalette_descriptor w lprgbq nColors =
     (case IdentityPalette_entries (w\<lparr>dc_held := Suc (dc_held w)\<rparr>) (screen_dc w) lprgbq nColors of
        None \<Rightarrow> None
      | Some d \<Rightarrow> Some (\<lparr>palVersion = 0x300, palNumEntries = 256, palPalEntry = d\<rparr>, w))"
  using assms
  by (simp add: CreateIdentityPalette_descriptor_def GetDC_some ReleaseDC_after_GetDC
      MAXPALETTE_def split: option.splits)

text \<open>
  C2. Under the exclusive-use policy (the palette use is \<open>SYSPAL_NOSTATIC\<close>), for every
  table and count, every descriptor \<open>CreateIdentityPalette\<close> constructs has 256
  entries, entry 0 exactly (0,0,0) with flags 0 and entry 255 exactly (255,255,255) with
  flags 0, whatever the table or the fill loop placed there. The descriptor is
  constructed whenever the count is at most 256 and at most the table's length (a larger
  count runs the copy loop outside an array).
\<close>

theorem CreateIdentityPalette_nostatic_black_white:
  assumes "screen_dc w \<noteq> NULL" "palette_use w = SYSPAL_NOSTATIC"
  shows "(\<forall>lp w'. CreateIdentityPalette_descriptor w lprgbq nColors = Some (lp, w') \<longrightarrow>
            unat (palNumEntries lp) = 256 \<and> length (palPalEntry lp) = 256 \<and>
            palPalEntry lp ! 0 = \<lparr>peRed = 0, peGreen = 0, peBlue = 0, peFlags = 0\<rparr> \<and>
            palPalEntry lp ! 255 = \<lparr>peRed = 255, peGreen = 255, peBlue = 255, peFlags = 0\<rparr>) \<and>
         (nColors \<le> 256 \<and> nColors \<le> int (length lprgbq) \<longrightarrow>
            (\<exists>lp. CreateIdentityPalette_descriptor w lprgbq nColors = Some (lp, w)))"
proof -
  let ?w = "w\<lparr>dc_held := Suc (dc_held w)\<rparr>"
  have use: "GetSystemPaletteUse ?w (screen_dc w) = SYSPAL_NOSTATIC"
    using assms by (simp add: GetSystemPaletteUse_screen)
  have "unat (palNumEntries lp) = 256 \<and> length (palPalEntry lp) = 256 \<and>
            palPalEntry lp ! 0 = \<lparr>peRed = 0, peGreen = 0, peBlue = 0, peFlags = 0\<rparr> \<and>
            palPalEntry lp ! 255 = \<lparr>peRed = 255, peGreen = 255, peBlue = 255, peFlags = 0\<rparr>"
    if "CreateIdentityPalette_descriptor w lprgbq nColors = Some (lp, w')" for lp w'
  proof -
    from that obtain d where d: "IdentityPalette_entries ?w (screen_dc w) lprgbq nColors = Some d"
      and lp: "lp = \<lparr>palVersion = 0x300, palNumEntries = 256, palPalEntry = d\<rparr>"
      by (auto simp: CreateIdentityPalette_descriptor_screen [OF assms(1)] split: option.splits)
    from nostatic_entries_result [OF use d] lp show ?thesis by simp
  qed
  moreover have "\<exists>lp. CreateIdentityPalette_descriptor w lprgbq nColors = Some (lp, w)"
    if "nColors \<le> 256 \<and> nColors \<le> int (length lprgbq)"
  proof -
    from that nostatic_entries_defined [OF use, of nColors lprgbq]
    obtain d where "IdentityPalette_entries ?w (screen_dc w) lprgbq nColors = Some d"
      by blast
    then show ?thesis
      by (simp add: CreateIdentityPalette_descriptor_screen [OF assms(1)])
  qed
  ultimately show ?thesis by blast
qed

theorem CreateIdentityPalette_nostatic_black_white_witness:
  "\<exists>lp. CreateIdentityPalette_descriptor (palette_display\<lparr>palette_use := SYSPAL_NOSTATIC\<rparr>)
          (replicate 256 \<lparr>rgbBlue = 9, rgbGreen = 9, rgbRed = 9, rgbReserved = 9\<rparr>) 256 =
            Some (lp, palette_display\<lparr>palette_use := SYSPAL_NOSTATIC\<rparr>) \<and>
        palPalEntry lp ! 0 = \<lparr>peRed = 0, peGreen = 0, peBlue = 0, peFlags = 0\<rparr> \<and>
        palPalEntry lp ! 255 = \<lparr>peRed = 255, peGreen = 255, peBlue = 255, peFlags = 0\<rparr>"
proof -
  let ?w = "palette_display\<lparr>palette_use := SYSPAL_NOSTATIC\<rparr>"
  let ?t = "replicate 256 \<lparr>rgbBlue = 9, rgbGreen = 9, rgbRed = 9, rgbReserved = 9\<rparr>"
  have h: "screen_dc ?w \<noteq> NULL" "palette_use ?w = SYSPAL_NOSTATIC"
    by (simp_all add: palette_display_def NULL_def)
  note t = CreateIdentityPalette_nostatic_black_white [OF h, of ?t 256]
  from t have "\<exists>lp. CreateIdentityPalette_descriptor ?w ?t 256 = Some (lp, ?w)"
    by simp
  then obtain lp where lp: "CreateIdentityPalette_descriptor ?w ?t 256 = Some (lp, ?w)" ..
  with t have "palPalEntry lp ! 0 = \<lparr>peRed = 0, peGreen = 0, peBlue = 0, peFlags = 0\<rparr>"
    "palPalEntry lp ! 255 = \<lparr>peRed = 255, peGreen = 255, peBlue = 255, peFlags = 0\<rparr>"
    by blast+
  with lp show ?thesis by blast
qed

subsection \<open>The identity palette under the shared-use policy\<close>

lemma snapshot_length:
  assumes "GetSystemPaletteEntries w hDC 0 MAXPALETTE (replicate MAXPALETTE zero_entry) = Some (m, S)"
  shows "length S = 256"
  using assms
  by (auto simp: GetSystemPaletteEntries_def CopyMemory_def MAXPALETTE_def Let_def
      split: if_splits)

lemma static_entries_closed:
  assumes use: "GetSystemPaletteUse w hDC \<noteq> SYSPAL_NOSTATIC"
    and snap: "GetSystemPaletteEntries w hDC 0 MAXPALETTE (replicate MAXPALETTE zero_entry) =
                 Some (m, S)"
    and s: "c_div (GetDeviceCaps w hDC NUMCOLORS) 2 = s" "0 \<le> s" "s \<le> 256"
    and u: "c_sub nColors s = Some u"
    and fit: "u \<le> s \<or> (u \<le> 256 \<and> u \<le> int (length lprgbq))"
  shows "IdentityPalette_entries w hDC lprgbq nColors =
           Some (map (static_entry S lprgbq s u) [0..<256])"
proof -
  let ?copy = "\<lambda>i a. do {
              q \<leftarrow> rd lprgbq i;
              upd a i (\<lambda>e. e\<lparr>peRed := rgbRed q, peGreen := rgbGreen q,
                             peBlue := rgbBlue q, peFlags := PC_NOCOLLAPSE\<rparr>)
            }"
  let ?flag = "\<lambda>fl i a. upd a i (\<lambda>e. e\<lparr>peFlags := fl\<rparr>)"
  have lenS: "length S = 256" by (rule snapshot_length [OF snap])
  \<comment> \<open>the low static entries\<close>
  have "\<And>j. 0 \<le> j \<Longrightarrow> int j < s \<Longrightarrow> j < length S"
    using s(3) lenS by simp
  from flags_loop [of 0 s S 0, OF this] s(2) lenS
  obtain a1 where a1: "for_loop 0 s (?flag 0) S = Some (nat s, a1)" "length a1 = 256"
    "\<forall>k<256. a1 ! k = (if int k < s then (S ! k)\<lparr>peFlags := 0\<rparr> else S ! k)"
    by auto
  \<comment> \<open>the caller's entries\<close>
  have "\<And>j. nat s \<le> j \<Longrightarrow> int j < u \<Longrightarrow> j < length a1 \<and> j < length lprgbq"
    using fit s(2) a1(2) by auto
  from table_loop [of "nat s" u a1 lprgbq PC_NOCOLLAPSE, OF this] a1(2)
  obtain a2 where a2: "for_loop (nat s) u ?copy a1 = Some (max (nat s) (nat u), a2)"
    "length a2 = 256"
    "\<forall>k<256. a2 ! k =
       (if nat s \<le> k \<and> int k < u then to_entry PC_NOCOLLAPSE (lprgbq ! k) else a1 ! k)"
    by auto
  \<comment> \<open>the entries left over\<close>
  have "\<And>j. max (nat s) (nat u) \<le> j \<Longrightarrow> int j < 256 - s \<Longrightarrow> j < length a2"
    using s(2) a2(2) by simp
  from flags_loop [of "max (nat s) (nat u)" "256 - s" a2 PC_NOCOLLAPSE, OF this] a2(2)
  obtain a3 i3 where a3: "for_loop (max (nat s) (nat u)) (256 - s) (?flag PC_NOCOLLAPSE) a2 =
      Some (i3, a3)" "length a3 = 256"
    "\<forall>k<256. a3 ! k =
       (if max (nat s) (nat u) \<le> k \<and> int k < 256 - s
        then (a2 ! k)\<lparr>peFlags := PC_NOCOLLAPSE\<rparr> else a2 ! k)"
    by auto
  \<comment> \<open>the high static entries\<close>
  have "\<And>j. nat (256 - s) \<le> j \<Longrightarrow> int j < 256 \<Longrightarrow> j < length a3"
    using a3(2) by simp
  from flags_loop [of "nat (256 - s)" 256 a3 0, OF this] a3(2)
  obtain a4 i4 where a4: "for_loop (nat (256 - s)) 256 (?flag 0) a3 = Some (i4, a4)"
    "length a4 = 256"
    "\<forall>k<256. a4 ! k =
       (if nat (256 - s) \<le> k \<and> int k < 256 then (a3 ! k)\<lparr>peFlags := 0\<rparr> else a3 ! k)"
    by auto
  have upper: "c_sub 256 s = Some (256 - s)"
    using s(2,3) by (simp add: c_sub_def)
  have run: "IdentityPalette_entries w hDC lprgbq nColors = Some a4"
    using use s(2,3)
    by (simp add: IdentityPalette_entries_def Let_def snap [unfolded MAXPALETTE_def] s(1) u
        MAXPALETTE_def a1(1) a2(1) upper a3(1) a4(1))
  have "a4 ! k = static_entry S lprgbq s u k" if k: "k < 256" for k
  proof -
    have c2: "(nat s \<le> k) = (s \<le> int k)" using s(2) by auto
    have c3: "(max (nat s) (nat u) \<le> k) = (s \<le> int k \<and> u \<le> int k)"
      using s(2) by auto
    have c4: "(nat (256 - s) \<le> k \<and> int k < 256) = (256 - s \<le> int k)"
      using k by auto
    from k a1(3) a2(3) a3(3) a4(3) show ?thesis
      by (simp only: static_entry_def Let_def c2 c3 c4 conj_assoc)
  qed
  with a4(2) have "a4 = map (static_entry S lprgbq s u) [0..<256]"
    by (simp add: list_eq_iff_nth_eq)
  with run show ?thesis by simp
qed

lemma take_min_length: "take (min (length xs) n) xs = take n xs"
  by (simp add: min_def)

lemma GetSystemPaletteEntries_snapshot:
  "hDC \<noteq> NULL \<Longrightarrow>
   GetSystemPaletteEntries w hDC 0 MAXPALETTE (replicate MAXPALETTE zero_entry) =
     Some (length (take MAXPALETTE (system_palette w)), system_snapshot w)"
  by (simp add: GetSystemPaletteEntries_def CopyMemory_def system_snapshot_def Let_def
      take_min_length)

lemma system_snapshot_dc_held: "system_snapshot (w\<lparr>dc_held := m\<rparr>) = system_snapshot w"
  by (simp add: system_snapshot_def)

lemma CreateIdentityPalette_descriptor_static:
  assumes dc: "screen_dc w \<noteq> NULL" and use: "palette_use w \<noteq> SYSPAL_NOSTATIC"
    and s: "c_div (devcaps w (screen_dc w) NUMCOLORS) 2 = s" "0 \<le> s" "s \<le> 256"
    and u: "c_sub nColors s = Some u"
    and fit: "u \<le> s \<or> (u \<le> 256 \<and> u \<le> int (length lprgbq))"
  shows "CreateIdentityPalette_descriptor w lprgbq nColors =
     Some (\<lparr>palVersion = 0x300, palNumEntries = 256,
            palPalEntry = map (static_entry (system_snapshot w) lprgbq s u) [0..<256]\<rparr>, w)"
proof -
  let ?w = "w\<lparr>dc_held := Suc (dc_held w)\<rparr>"
  have use': "GetSystemPaletteUse ?w (screen_dc w) \<noteq> SYSPAL_NOSTATIC"
    using dc use by (simp add: GetSystemPaletteUse_screen)
  have snap: "GetSystemPaletteEntries ?w (screen_dc w) 0 MAXPALETTE (replicate MAXPALETTE zero_entry) =
      Some (length (take MAXPALETTE (system_palette ?w)), system_snapshot w)"
    using GetSystemPaletteEntries_snapshot [OF dc, of ?w] by (simp add: system_snapshot_dc_held)
  have s': "c_div (GetDeviceCaps ?w (screen_dc w) NUMCOLORS) 2 = s"
    using dc s(1) by (simp add: GetDeviceCaps_def)
  have "IdentityPalette_entries ?w (screen_dc w) lprgbq nColors =
      Some (map (static_entry (system_snapshot w) lprgbq s u) [0..<256])"
    by (rule static_entries_closed [OF use' snap s' s(2,3) u fit])
  then show ?thesis
    by (simp add: CreateIdentityPalette_descriptor_screen [OF dc])
qed

lemma static_entry_middle:
  assumes "s \<le> int k" "u \<le> int k" "int k < 256 - s"
  shows "static_entry S lprgbq s u k = (S ! k)\<lparr>peFlags := PC_NOCOLLAPSE\<rparr>"
  using assms by (simp add: static_entry_def Let_def)

lemma static_entry_no_copy:
  assumes "u \<le> s"
  shows "colour (static_entry S lprgbq s u k) = colour (S ! k)"
    and "static_entry S lprgbq s u k = static_entry S t s u k"
  using assms by (simp_all add: static_entry_def Let_def colour_def)

text \<open>
  C3 (amended). Under the shared-use policy with N device static colours, on inputs
  where no access leaves an array, every slot \<open>k\<close> with N/2 \<le> k, count - N/2 \<le> k and
  k < 256 - N/2 of the descriptor \<open>CreateIdentityPalette\<close> constructs has the no-collapse
  flag and keeps the colour of the system-palette snapshot at \<open>k\<close>: the loop over these
  slots writes the flag only.
\<close>

theorem CreateIdentityPalette_static_middle_slots:
  assumes "screen_dc w \<noteq> NULL" "palette_use w \<noteq> SYSPAL_NOSTATIC"
    and "c_div (devcaps w (screen_dc w) NUMCOLORS) 2 = s" "0 \<le> s" "s \<le> 256"
    and "c_sub nColors s = Some u"
    and "u \<le> s \<or> (u \<le> 256 \<and> u \<le> int (length lprgbq))"
  shows "\<exists>lp. CreateIdentityPalette_descriptor w lprgbq nColors = Some (lp, w) \<and>
     length (palPalEntry lp) = 256 \<and>
     (\<forall>k. s \<le> int k \<and> u \<le> int k \<and> int k < 256 - s \<longrightarrow>
        peFlags (palPalEntry lp ! k) = PC_NOCOLLAPSE \<and>
        colour (palPalEntry lp ! k) = colour (system_snapshot w ! k))"
proof -
  let ?d = "map (static_entry (system_snapshot w) lprgbq s u) [0..<256]"
  let ?lp = "\<lparr>palVersion = 0x300, palNumEntries = 256, palPalEntry = ?d\<rparr>"
  have run: "CreateIdentityPalette_descriptor w lprgbq nColors = Some (?lp, w)"
    by (rule CreateIdentityPalette_descriptor_static [OF assms])
  have "peFlags (?d ! k) = PC_NOCOLLAPSE \<and> colour (?d ! k) = colour (system_snapshot w ! k)"
    if k: "s \<le> int k \<and> u \<le> int k \<and> int k < 256 - s" for k
  proof -
    from k assms(4) have "k < 256" by simp
    then have "?d ! k = static_entry (system_snapshot w) lprgbq s u k" by simp
    with k show ?thesis by (simp add: static_entry_middle colour_def)
  qed
  with run show ?thesis by (intro exI [of _ ?lp]) simp
qed

lemma map_upt_nth: "k < n \<Longrightarrow> map f [0..<n] ! k = f k"
  by simp

lemma palette_display_static:
  "screen_dc palette_display \<noteq> NULL" "palette_use palette_display \<noteq> SYSPAL_NOSTATIC"
  "c_div (devcaps palette_display (screen_dc palette_display) NUMCOLORS) 2 = 10"
  by (simp_all add: palette_display_def NULL_def SYSPAL_STATIC_def SYSPAL_NOSTATIC_def
      NUMCOLORS_def SIZEPALETTE_def c_div_def)

lemma palette_display_snapshot:
  "k < 256 \<Longrightarrow> system_snapshot palette_display ! k =
     \<lparr>peRed = 128, peGreen = 128, peBlue = 128, peFlags = 0\<rparr>"
  by (simp add: system_snapshot_def palette_display_def MAXPALETTE_def Let_def)

text \<open>An instance on the 256-colour display with count 20: slot 100.\<close>

theorem CreateIdentityPalette_static_middle_slots_witness:
  "\<exists>lp. CreateIdentityPalette_descriptor palette_display
          (replicate 20 \<lparr>rgbBlue = 3, rgbGreen = 2, rgbRed = 1, rgbReserved = 0\<rparr>) 20 =
            Some (lp, palette_display) \<and>
        peFlags (palPalEntry lp ! 100) = PC_NOCOLLAPSE \<and>
        colour (palPalEntry lp ! 100) = colour (system_snapshot palette_display ! 100)"
proof -
  let ?t = "replicate 20 \<lparr>rgbBlue = 3, rgbGreen = 2, rgbRed = 1, rgbReserved = 0\<rparr>"
  have u: "c_sub 20 10 = Some 10" by (simp add: c_sub_def)
  have fit: "(10::int) \<le> 10 \<or> ((10::int) \<le> 256 \<and> 10 \<le> int (length ?t))" by simp
  from CreateIdentityPalette_static_middle_slots [OF palette_display_static _ _ u fit]
  obtain lp where lp: "CreateIdentityPalette_descriptor palette_display ?t 20 =
      Some (lp, palette_display)"
    and each: "\<forall>k. 10 \<le> int k \<and> 10 \<le> int k \<and> int k < 256 - 10 \<longrightarrow>
        peFlags (palPalEntry lp ! k) = PC_NOCOLLAPSE \<and>
        colour (palPalEntry lp ! k) = colour (system_snapshot palette_display ! k)"
    by auto
  from each have "peFlags (palPalEntry lp ! 100) = PC_NOCOLLAPSE \<and>
        colour (palPalEntry lp ! 100) = colour (system_snapshot palette_display ! 100)"
    by simp
  with lp show ?thesis by blast
qed

text \<open>The claim as first stated (these slots are zero-filled) fails on the same input:
  slot 100 lies between count - N/2 = 10 and 256 - N/2 = 246 and holds the grey of the
  system palette.\<close>

theorem CreateIdentityPalette_static_middle_slot_not_zero:
  "entry_of (CreateIdentityPalette_descriptor palette_display
       (replicate 20 \<lparr>rgbBlue = 3, rgbGreen = 2, rgbRed = 1, rgbReserved = 0\<rparr>) 20) 100 =
     Some \<lparr>peRed = 128, peGreen = 128, peBlue = 128, peFlags = PC_NOCOLLAPSE\<rparr>"
proof -
  let ?t = "replicate 20 \<lparr>rgbBlue = 3, rgbGreen = 2, rgbRed = 1, rgbReserved = 0\<rparr>"
  let ?d = "map (static_entry (system_snapshot palette_display) ?t 10 10) [0..<256]"
  let ?lp = "\<lparr>palVersion = 0x300, palNumEntries = 256, palPalEntry = ?d\<rparr>"
  have u: "c_sub 20 10 = Some 10" by (simp add: c_sub_def)
  have fit: "(10::int) \<le> 10 \<or> ((10::int) \<le> 256 \<and> 10 \<le> int (length ?t))" by simp
  have run: "CreateIdentityPalette_descriptor palette_display ?t 20 = Some (?lp, palette_display)"
    by (rule CreateIdentityPalette_descriptor_static [OF palette_display_static _ _ u fit])
       simp_all
  have "?d ! 100 = static_entry (system_snapshot palette_display) ?t 10 10 100"
    by (rule map_upt_nth) simp
  also have "\<dots> = (system_snapshot palette_display ! 100)\<lparr>peFlags := PC_NOCOLLAPSE\<rparr>"
    by (rule static_entry_middle) simp_all
  also have "\<dots> = \<lparr>peRed = 128, peGreen = 128, peBlue = 128, peFlags = PC_NOCOLLAPSE\<rparr>"
    by (simp add: palette_display_snapshot)
  finally have e: "?d ! 100 =
      \<lparr>peRed = 128, peGreen = 128, peBlue = 128, peFlags = PC_NOCOLLAPSE\<rparr>" .
  have "entry_of (Some (?lp, palette_display)) 100 = Some (?d ! 100)"
    by (simp only: entry_of_def option.map prod.case LOGPALETTE.simps)
  then show ?thesis
    by (simp only: run e)
qed

text \<open>
  C10 (amended). Under the shared-use policy with N device static colours, on inputs
  where no access leaves an array, whenever count - N/2 \<le> N/2 with the truncating half
  N/2 of C (for even N: whenever count \<le> N), the loop that copies the caller's entries
  makes no pass: the descriptor is the same for every table, and the colour of each of
  its 256 entries is the colour of the system-palette snapshot; only flags differ.
\<close>

theorem CreateIdentityPalette_static_no_caller_colour:
  assumes "screen_dc w \<noteq> NULL" "palette_use w \<noteq> SYSPAL_NOSTATIC"
    and "c_div (devcaps w (screen_dc w) NUMCOLORS) 2 = s" "0 \<le> s" "s \<le> 256"
    and "c_sub nColors s = Some u"
    and "u \<le> s"
  shows "\<exists>lp. CreateIdentityPalette_descriptor w lprgbq nColors = Some (lp, w) \<and>
     (\<forall>body (a :: PALETTEENTRY list). for_loop (nat s) u body a = Some (nat s, a)) \<and>
     (\<forall>t. CreateIdentityPalette_descriptor w t nColors = Some (lp, w)) \<and>
     (\<forall>k<256. colour (palPalEntry lp ! k) = colour (system_snapshot w ! k))"
proof -
  let ?d = "\<lambda>t. map (static_entry (system_snapshot w) t s u) [0..<256]"
  let ?lp = "\<lambda>t. \<lparr>palVersion = 0x300, palNumEntries = 256, palPalEntry = ?d t\<rparr>"
  have run: "CreateIdentityPalette_descriptor w t nColors = Some (?lp t, w)" for t
    using assms by (intro CreateIdentityPalette_descriptor_static) simp_all
  have same: "?d t = ?d lprgbq" for t
    by (rule map_cong [OF refl]) (rule static_entry_no_copy(2) [OF assms(7)])
  have no_pass: "\<forall>body (a :: PALETTEENTRY list). for_loop (nat s) u body a = Some (nat s, a)"
    using assms(4,7) by (simp add: for_loop_done)
  have col: "colour (?d lprgbq ! k) = colour (system_snapshot w ! k)" if "k < 256" for k
    by (simp only: map_upt_nth [OF that] static_entry_no_copy(1) [OF assms(7)])
  have "CreateIdentityPalette_descriptor w t nColors = Some (?lp lprgbq, w)" for t
    using run [of t] by (simp only: same [of t])
  then have every: "\<forall>t. CreateIdentityPalette_descriptor w t nColors = Some (?lp lprgbq, w)" ..
  have sel: "palPalEntry (?lp lprgbq) = ?d lprgbq"
    by (simp only: LOGPALETTE.simps)
  have cols: "\<forall>k<256. colour (palPalEntry (?lp lprgbq) ! k) = colour (system_snapshot w ! k)"
    unfolding sel using col by blast
  show ?thesis
    by (rule exI [of _ "?lp lprgbq"]) (intro conjI run no_pass every cols)
qed

text \<open>For an even N the condition is the one on the count alone.\<close>

lemma c_div_even:
  assumes "even N" "0 \<le> N" "nColors \<le> N"
  shows "nColors - c_div N 2 \<le> c_div N 2"
proof -
  from assms(1,2) have "2 * c_div N 2 = N"
    by (cases "N = 0") (auto simp: c_div_def sgn_if)
  with assms(3) show ?thesis by simp
qed

theorem CreateIdentityPalette_static_no_caller_colour_witness:
  "\<exists>lp. CreateIdentityPalette_descriptor palette_display
          (replicate 20 \<lparr>rgbBlue = 3, rgbGreen = 2, rgbRed = 1, rgbReserved = 0\<rparr>) 20 =
            Some (lp, palette_display) \<and>
        CreateIdentityPalette_descriptor palette_display [] 20 = Some (lp, palette_display) \<and>
        colour (palPalEntry lp ! 10) = colour (system_snapshot palette_display ! 10)"
proof -
  let ?t = "replicate 20 \<lparr>rgbBlue = 3, rgbGreen = 2, rgbRed = 1, rgbReserved = 0\<rparr>"
  have u: "c_sub 20 10 = Some 10" by (simp add: c_sub_def)
  have s: "(0::int) \<le> 10" "(10::int) \<le> 256" "(10::int) \<le> 10" by simp_all
  from CreateIdentityPalette_static_no_caller_colour [OF palette_display_static s(1,2) u s(3), of ?t]
  obtain lp where lp: "CreateIdentityPalette_descriptor palette_display ?t 20 =
      Some (lp, palette_display)"
    and every: "\<forall>t. CreateIdentityPalette_descriptor palette_display t 20 =
      Some (lp, palette_display)"
    and cols: "\<forall>k<256. colour (palPalEntry lp ! k) = colour (system_snapshot palette_display ! k)"
    by blast
  from every have "CreateIdentityPalette_descriptor palette_display [] 20 =
      Some (lp, palette_display)" ..
  moreover from cols have "colour (palPalEntry lp ! 10) =
      colour (system_snapshot palette_display ! 10)" by simp
  ultimately show ?thesis using lp by blast
qed

text \<open>With the count at most N alone the statement fails for an odd N: with N = 3 and
  count 3 the halves are 1, the copy loop makes one pass, and slot 1 holds the caller's
  colour, not the system palette's.\<close>

theorem CreateIdentityPalette_static_odd_count_copies:
  "palette_use (palette_display\<lparr>devcaps := \<lambda>h idx. 3\<rparr>) \<noteq> SYSPAL_NOSTATIC \<and>
   devcaps (palette_display\<lparr>devcaps := \<lambda>h idx. 3\<rparr>)
     (screen_dc (palette_display\<lparr>devcaps := \<lambda>h idx. 3\<rparr>)) NUMCOLORS = 3 \<and>
   entry_of (CreateIdentityPalette_descriptor (palette_display\<lparr>devcaps := \<lambda>h idx. 3\<rparr>)
       (replicate 3 \<lparr>rgbBlue = 9, rgbGreen = 8, rgbRed = 7, rgbReserved = 0\<rparr>) 3) 1 =
     Some \<lparr>peRed = 7, peGreen = 8, peBlue = 9, peFlags = PC_NOCOLLAPSE\<rparr> \<and>
   system_snapshot (palette_display\<lparr>devcaps := \<lambda>h idx. 3\<rparr>) ! 1 =
     \<lparr>peRed = 128, peGreen = 128, peBlue = 128, peFlags = 0\<rparr>"
proof -
  let ?w = "palette_display\<lparr>devcaps := \<lambda>h idx. 3\<rparr>"
  let ?t = "replicate 3 \<lparr>rgbBlue = 9, rgbGreen = 8, rgbRed = 7, rgbReserved = 0\<rparr>"
  let ?d = "map (static_entry (system_snapshot ?w) ?t 1 2) [0..<256]"
  let ?lp = "\<lparr>palVersion = 0x300, palNumEntries = 256, palPalEntry = ?d\<rparr>"
  have w: "screen_dc ?w \<noteq> NULL" "palette_use ?w \<noteq> SYSPAL_NOSTATIC"
    "c_div (devcaps ?w (screen_dc ?w) NUMCOLORS) 2 = 1"
    by (simp_all add: palette_display_def NULL_def SYSPAL_STATIC_def SYSPAL_NOSTATIC_def
        c_div_def)
  have n: "devcaps ?w (screen_dc ?w) NUMCOLORS = 3"
    by simp
  have u: "c_sub 3 1 = Some 2" by (simp add: c_sub_def)
  have fit: "(2::int) \<le> 1 \<or> ((2::int) \<le> 256 \<and> 2 \<le> int (length ?t))" by simp
  have run: "CreateIdentityPalette_descriptor ?w ?t 3 = Some (?lp, ?w)"
    by (rule CreateIdentityPalette_descriptor_static [OF w _ _ u fit]) simp_all
  have "?d ! 1 = static_entry (system_snapshot ?w) ?t 1 2 1"
    by (rule map_upt_nth) simp
  also have "\<dots> = to_entry PC_NOCOLLAPSE (?t ! 1)"
    by (simp add: static_entry_def Let_def)
  also have "\<dots> = \<lparr>peRed = 7, peGreen = 8, peBlue = 9, peFlags = PC_NOCOLLAPSE\<rparr>"
    by (simp add: to_entry_def)
  finally have e: "?d ! 1 = \<lparr>peRed = 7, peGreen = 8, peBlue = 9, peFlags = PC_NOCOLLAPSE\<rparr>" .
  have "entry_of (Some (?lp, ?w)) 1 = Some (?d ! 1)"
    by (simp only: entry_of_def option.map prod.case LOGPALETTE.simps)
  then have c: "entry_of (CreateIdentityPalette_descriptor ?w ?t 3) 1 =
      Some \<lparr>peRed = 7, peGreen = 8, peBlue = 9, peFlags = PC_NOCOLLAPSE\<rparr>"
    by (simp only: run e)
  have snap: "system_snapshot ?w ! 1 = \<lparr>peRed = 128, peGreen = 128, peBlue = 128, peFlags = 0\<rparr>"
    by (simp add: system_snapshot_def palette_display_def MAXPALETTE_def Let_def)
  show ?thesis
    by (intro conjI w(2) n c snap)
qed

subsection \<open>Clearing the system palette\<close>

lemma black_loop:
  "for_loop 0 (int MAXPALETTE)
     (\<lambda>i a. upd a i (\<lambda>e. e\<lparr>peRed := 0, peGreen := 0, peBlue := 0, peFlags := PC_NOCOLLAPSE\<rparr>))
     (replicate MAXPALETTE zero_entry) = Some (MAXPALETTE, replicate MAXPALETTE black_nocollapse)"
  using for_loop_upd_prefix [of MAXPALETTE "replicate MAXPALETTE zero_entry"
      "\<lambda>e. e\<lparr>peRed := 0, peGreen := 0, peBlue := 0, peFlags := PC_NOCOLLAPSE\<rparr>"]
  by (simp add: entry_all_fields black_nocollapse_def)

lemma fresh_handle_not_live: "fresh_handle w \<notin> fst ` set (objects w)"
proof
  assume "fresh_handle w \<in> fst ` set (objects w)"
  then have "fresh_handle w \<in> set (NULL # map fst (objects w))" by simp
  then have "fresh_handle w \<le> Max (set (NULL # map fst (objects w)))"
    by (intro Max_ge) auto
  then show False by (simp add: fresh_handle_def)
qed

lemma ClearSystemPalette_no_context:
  assumes "screen_dc w = NULL" "gdi_ok w"
  shows "ClearSystemPalette w =
     Some (w\<lparr>objects := (fresh_handle w, replicate MAXPALETTE black_nocollapse) # objects w\<rparr>)"
proof -
  have create: "CreatePalette w
      \<lparr>palVersion = 0x300, palNumEntries = of_nat MAXPALETTE,
       palPalEntry = replicate MAXPALETTE black_nocollapse\<rparr> =
     Some (fresh_handle w,
       w\<lparr>objects := (fresh_handle w, replicate MAXPALETTE black_nocollapse) # objects w\<rparr>)"
    using assms(2) by (simp add: CreatePalette_ok MAXPALETTE_def)
  show ?thesis
    using assms(1)
    by (simp add: ClearSystemPalette_def black_loop GetDC_none create fresh_handle_not_NULL
        SelectPalette_def RealizePalette_def DeleteObject_def palette_of_NULL ReleaseDC_def)
qed

lemma ClearSystemPalette_no_palette:
  assumes "\<not> gdi_ok w"
  shows "ClearSystemPalette w = Some w"
proof -
  have create: "CreatePalette w' 
      \<lparr>palVersion = 0x300, palNumEntries = of_nat MAXPALETTE,
       palPalEntry = replicate MAXPALETTE black_nocollapse\<rparr> = Some (NULL, w')"
    if "\<not> gdi_ok w'" for w'
    using that by (simp add: CreatePalette_def MAXPALETTE_def)
  show ?thesis
  proof (cases "screen_dc w = NULL")
    case True
    with assms show ?thesis
      by (simp add: ClearSystemPalette_def black_loop GetDC_none create ReleaseDC_def)
  next
    case False
    with assms show ?thesis
      by (simp add: ClearSystemPalette_def black_loop GetDC_some create ReleaseDC_after_GetDC)
  qed
qed

lemma ClearSystemPalette_restores:
  assumes dc: "screen_dc w \<noteq> NULL" and ok: "gdi_ok w"
    and live: "palette_of w (selected w) = Some old"
  shows "ClearSystemPalette w =
     Some (w\<lparr>system_palette :=
              realize w (replicate MAXPALETTE black_nocollapse) (system_palette w)\<rparr>)"
proof -
  let ?black = "replicate MAXPALETTE black_nocollapse"
  let ?h = "fresh_handle w"
  let ?w1 = "w\<lparr>dc_held := Suc (dc_held w)\<rparr>"
  let ?w2 = "?w1\<lparr>objects := (?h, ?black) # objects w\<rparr>"
  have fresh1: "fresh_handle ?w1 = ?h"
    by (simp add: fresh_handle_def)
  have create: "CreatePalette ?w1
      \<lparr>palVersion = 0x300, palNumEntries = of_nat MAXPALETTE, palPalEntry = ?black\<rparr> =
     Some (?h, ?w2)"
    using ok by (simp add: CreatePalette_ok fresh1 MAXPALETTE_def)
  from live have sel_lt: "selected w < ?h" by (rule fresh_handle_greater)
  then have ne: "selected w \<noteq> ?h" by simp
  from live have sel_not_null: "selected w \<noteq> NULL"
    by (auto simp: palette_of_def)
  have old_live: "map_of (objects w) (selected w) = Some old"
    using live by (simp add: palette_of_def split: if_splits)
  have del: "AList.delete ?h (objects w) = objects w"
    by (rule delete_id) (rule fresh_handle_not_live)
  show ?thesis
    using dc ne sel_not_null
    by (simp add: ClearSystemPalette_def black_loop GetDC_some create fresh_handle_not_NULL
        SelectPalette_def RealizePalette_def DeleteObject_def palette_of_def old_live
        ReleaseDC_def del)
qed

text \<open>
  C7. Whenever the construction of the all-black, all-no-collapse palette succeeds, the
  palette selected into the screen context before the call is selected into it again
  afterwards and the temporary palette is destroyed; the context is released whether or
  not the construction succeeded. With a context acquired this is what the function does
  (\<open>ClearSystemPalette_restores\<close>, \<open>ClearSystemPalette_no_palette\<close>). The function
  does not test the context it acquires, as \<open>GetSystemPalette\<close> does: when \<open>GetDC\<close>
  returns null and the construction succeeds, both selections fail, \<open>DeleteObject\<close> is
  called on null, and the temporary palette (handle 2 below; handle 1 is the palette
  live before the call) is still live after it.
\<close>

theorem ClearSystemPalette_leaks_without_context:
  "ClearSystemPalette (palette_display\<lparr>screen_dc := NULL\<rparr>) =
     Some (palette_display\<lparr>screen_dc := NULL,
             objects := [(2, replicate 256 black_nocollapse), (1, replicate 20 zero_entry)]\<rparr>)"
proof -
  let ?w = "palette_display\<lparr>screen_dc := NULL\<rparr>"
  have ok: "gdi_ok ?w" and dc: "screen_dc ?w = NULL"
    by (simp_all add: palette_display_def)
  have h: "fresh_handle ?w = 2"
    by (simp add: fresh_handle_def palette_display_def NULL_def)
  have "ClearSystemPalette ?w =
      Some (?w\<lparr>objects := (2, replicate MAXPALETTE black_nocollapse) # objects ?w\<rparr>)"
    using ClearSystemPalette_no_context [OF dc ok] by (simp only: h)
  then show ?thesis
    by (simp add: palette_display_def MAXPALETTE_def)
qed

end
